theory Spec2Isabelle
  imports Main "HOL-Library.Multiset"
begin

section \<open>Data model of the match store (src/App.tsx)\<close>

text \<open>
  JavaScript numbers that the store only ever fills with whole numbers (points, clock
  seconds, \<open>Date.now()\<close> milliseconds) are modelled as \<open>int\<close>. Optional fields
  (\<open>player?\<close>, \<open>returnTime?\<close>, \<open>competition?\<close>) are options. The flags
  \<open>pending?\<close> and \<open>returned?\<close> are always written as booleans by the store and
  only read for truthiness, so they are \<open>bool\<close>. The results of
  \<open>crypto.randomUUID()\<close> and \<open>Date.now()\<close> are parameters of the operations.
\<close>

datatype team = Home | Away

datatype score_type = Try | Conversion | Penalty | DropGoal | PenaltyTry

datatype card_type = Yellow | Red

datatype system_type = MatchStart | HalfTime | MatchEnd

record Player =
  p_id :: string
  p_number :: int
  p_name :: string
  p_position :: string
  p_isStarter :: bool
  p_team :: team

record ScoreEvent =
  se_id :: string
  se_timestamp :: int
  se_team :: team
  se_type :: score_type
  se_points :: int
  se_player :: "string option"
  se_half :: int
  se_minute :: int
  se_matchTime :: int
  se_pending :: bool

record Card =
  c_id :: string
  c_timestamp :: int
  c_team :: team
  c_player :: string
  c_type :: card_type
  c_half :: int
  c_minute :: int
  c_matchTime :: int
  c_returnTime :: "int option"
  c_returned :: bool

record Substitution =
  sub_id :: string
  sub_timestamp :: int
  sub_team :: team
  sub_offPlayerId :: string
  sub_onPlayerId :: string
  sub_half :: int
  sub_minute :: int
  sub_matchTime :: int

record SystemEvent =
  sys_id :: string
  sys_timestamp :: int
  sys_type :: system_type
  sys_half :: int
  sys_matchTime :: int

record CardReturnEvent =
  cr_id :: string
  cr_timestamp :: int
  cr_cardId :: string
  cr_team :: team
  cr_playerId :: string
  cr_matchTime :: int

record MatchState =
  homeTeam :: string
  awayTeam :: string
  homeColor :: string
  awayColor :: string
  halfDuration :: int
  playerTracking :: bool
  cardTracking :: bool
  substitutions :: bool
  competition :: "string option"
  venue :: "string option"
  referee :: "string option"
  homeScore :: int
  awayScore :: int
  scoreEvents :: "ScoreEvent list"
  cards :: "Card list"
  players :: "Player list"
  substitutionEvents :: "Substitution list"
  systemEvents :: "SystemEvent list"
  cardReturnEvents :: "CardReturnEvent list"
  currentHalf :: int
  elapsedSeconds :: int
  injuryTime :: int
  isRunning :: bool
  lastTryTeam :: "team option"
  matchStarted :: bool
  currentMatchId :: "string option"
  showSubstitutionModal :: bool

definition initialState :: MatchState where
  "initialState =
     \<lparr> homeTeam = ''Home'', awayTeam = ''Away'',
       homeColor = ''#3b82f6'', awayColor = ''#ef4444'',
       halfDuration = 40 * 60,
       playerTracking = True, cardTracking = True, substitutions = False,
       competition = Some '''', venue = Some '''', referee = Some '''',
       homeScore = 0, awayScore = 0,
       scoreEvents = [], cards = [], players = [],
       substitutionEvents = [], systemEvents = [], cardReturnEvents = [],
       currentHalf = 1, elapsedSeconds = 0, injuryTime = 0,
       isRunning = False, lastTryTeam = None, matchStarted = False,
       currentMatchId = None, showSubstitutionModal = False \<rparr>"

section \<open>Store operations\<close>

text \<open>The fixed kind-to-points table of \<open>addScore\<close>.\<close>

fun points :: "score_type \<Rightarrow> int" where
  "points Try = 5"
| "points Conversion = 2"
| "points Penalty = 3"
| "points DropGoal = 3"
| "points PenaltyTry = 7"

text \<open>\<open>xs[xs.length - 1]\<close> and \<open>xs.slice(-1)[0]\<close>: the last element, or undefined.\<close>

definition lastElem :: "'a list \<Rightarrow> 'a option" where
  "lastElem xs = (if xs = [] then None else Some (last xs))"

text \<open>\<open>xs[xs.length - 2]\<close>: the element before the last, or undefined.\<close>

definition secondLast :: "'a list \<Rightarrow> 'a option" where
  "secondLast xs = (if length xs < 2 then None else Some (xs ! (length xs - 2)))"

text \<open>\<open>state[scoreKey] + d\<close> written back under the computed key \<open>scoreKey\<close>.\<close>

definition addToScore :: "team \<Rightarrow> int \<Rightarrow> MatchState \<Rightarrow> MatchState" where
  "addToScore tm d s =
     (if tm = Home then s\<lparr>homeScore := homeScore s + d\<rparr>
      else s\<lparr>awayScore := awayScore s + d\<rparr>)"

text \<open>The guard of \<open>addScore\<close>: the last non-pending event of kind \<open>try\<close>.\<close>

definition lastTry :: "ScoreEvent list \<Rightarrow> ScoreEvent option" where
  "lastTry evs = lastElem (filter (\<lambda>e. se_type e = Try \<and> \<not> se_pending e) evs)"

definition addScore ::
  "string \<Rightarrow> int \<Rightarrow> team \<Rightarrow> score_type \<Rightarrow> string option \<Rightarrow> bool \<Rightarrow> MatchState \<Rightarrow> MatchState" where
  "addScore newId now tm ty player pending s =
     (if ty = Conversion \<and>
         (case lastTry (scoreEvents s) of None \<Rightarrow> True | Some lt \<Rightarrow> se_team lt \<noteq> tm)
      then s
      else
        let event = \<lparr> se_id = newId, se_timestamp = now, se_team = tm, se_type = ty,
                      se_points = points ty, se_player = player,
                      se_half = currentHalf s, se_minute = elapsedSeconds s div 60,
                      se_matchTime = elapsedSeconds s, se_pending = pending \<rparr>
        in (addToScore tm (if pending then 0 else points ty) s)
             \<lparr> scoreEvents := scoreEvents s @ [event],
               lastTryTeam := (if (ty = Try \<or> ty = PenaltyTry) \<and> \<not> pending
                               then Some tm else None) \<rparr>)"

definition addCard :: "string \<Rightarrow> int \<Rightarrow> team \<Rightarrow> string \<Rightarrow> card_type \<Rightarrow> MatchState \<Rightarrow> MatchState" where
  "addCard newId now tm player ty s =
     (let crd = \<lparr> c_id = newId, c_timestamp = now, c_team = tm, c_player = player,
                    c_type = ty, c_half = currentHalf s,
                    c_minute = elapsedSeconds s div 60, c_matchTime = elapsedSeconds s,
                    c_returnTime = (if ty = Yellow then Some (elapsedSeconds s + 600) else None),
                    c_returned = False \<rparr>
      in s\<lparr>cards := cards s @ [crd]\<rparr>)"

definition addSubstitution ::
  "string \<Rightarrow> int \<Rightarrow> team \<Rightarrow> string \<Rightarrow> string \<Rightarrow> Player option \<Rightarrow> MatchState \<Rightarrow> MatchState" where
  "addSubstitution newId now tm offPlayerId onPlayerId onPlayer s =
     (let sub = \<lparr> sub_id = newId, sub_timestamp = now, sub_team = tm,
                   sub_offPlayerId = offPlayerId, sub_onPlayerId = onPlayerId,
                   sub_half = currentHalf s, sub_minute = elapsedSeconds s div 60,
                   sub_matchTime = elapsedSeconds s \<rparr>;
          hasOnPlayer = list_ex (\<lambda>p. p_id p = onPlayerId) (players s)
      in case onPlayer of
           Some pl \<Rightarrow>
             if \<not> hasOnPlayer
             then s\<lparr>substitutionEvents := substitutionEvents s @ [sub],
                    players := players s @ [pl]\<rparr>
             else s\<lparr>substitutionEvents := substitutionEvents s @ [sub]\<rparr>
         | None \<Rightarrow> s\<lparr>substitutionEvents := substitutionEvents s @ [sub]\<rparr>)"

definition updateScoreEventPlayer :: "string \<Rightarrow> string option \<Rightarrow> MatchState \<Rightarrow> MatchState" where
  "updateScoreEventPlayer eventId playerId s =
     s\<lparr>scoreEvents :=
         map (\<lambda>e. if se_id e = eventId then e\<lparr>se_player := playerId\<rparr> else e) (scoreEvents s)\<rparr>"

text \<open>
  The \<open>for\<close> loop of \<open>removeScoreEvent\<close> over the remaining events, with its three
  accumulators \<open>homeScore\<close>, \<open>awayScore\<close> and \<open>lastTryTeam\<close>.
\<close>

fun removeScoreEvent_loop ::
  "ScoreEvent list \<Rightarrow> int \<times> int \<times> team option \<Rightarrow> int \<times> int \<times> team option" where
  "removeScoreEvent_loop [] acc = acc"
| "removeScoreEvent_loop (e # es) (h, a, l) =
     (if se_pending e then removeScoreEvent_loop es (h, a, l)
      else
        let h1 = (if se_team e = Home then h + se_points e else h);
            a1 = (if se_team e = Home then a else a + se_points e);
            l1 = (if se_type e = Try \<or> se_type e = PenaltyTry then Some (se_team e) else l);
            l2 = (if se_type e = Conversion then Some (se_team e) else l1)
        in removeScoreEvent_loop es (h1, a1, l2))"

definition removeScoreEvent :: "string \<Rightarrow> MatchState \<Rightarrow> MatchState" where
  "removeScoreEvent eventId s =
     (let evs = filter (\<lambda>e. se_id e \<noteq> eventId) (scoreEvents s)
      in case removeScoreEvent_loop evs (0, 0, None) of
           (h, a, l) \<Rightarrow> s\<lparr>scoreEvents := evs, homeScore := h, awayScore := a, lastTryTeam := l\<rparr>)"

definition removeCard :: "string \<Rightarrow> MatchState \<Rightarrow> MatchState" where
  "removeCard cardId s = s\<lparr>cards := filter (\<lambda>c. c_id c \<noteq> cardId) (cards s)\<rparr>"

definition removeSubstitution :: "string \<Rightarrow> MatchState \<Rightarrow> MatchState" where
  "removeSubstitution subId s =
     s\<lparr>substitutionEvents := filter (\<lambda>x. sub_id x \<noteq> subId) (substitutionEvents s)\<rparr>"

definition returnFromSinBin :: "string \<Rightarrow> int \<Rightarrow> string \<Rightarrow> MatchState \<Rightarrow> MatchState" where
  "returnFromSinBin newId now cardId s =
     (case find (\<lambda>c. c_id c = cardId) (cards s) of
        None \<Rightarrow> s
      | Some crd \<Rightarrow>
          let returnEv = \<lparr> cr_id = newId, cr_timestamp = now, cr_cardId = cardId,
                            cr_team = c_team crd, cr_playerId = c_player crd,
                            cr_matchTime = elapsedSeconds s \<rparr>
          in s\<lparr>cards := map (\<lambda>c. if c_id c = cardId then c\<lparr>c_returned := True\<rparr> else c) (cards s),
               cardReturnEvents := cardReturnEvents s @ [returnEv]\<rparr>)"

definition resolvePendingEvent :: "string \<Rightarrow> bool \<Rightarrow> MatchState \<Rightarrow> MatchState" where
  "resolvePendingEvent eventId approved s =
     (case find (\<lambda>e. se_id e = eventId) (scoreEvents s) of
        None \<Rightarrow> s
      | Some event \<Rightarrow>
          if approved then
            (addToScore (se_team event) (se_points event) s)
              \<lparr> scoreEvents :=
                  map (\<lambda>e. if se_id e = eventId then e\<lparr>se_pending := False\<rparr> else e) (scoreEvents s),
                lastTryTeam := (if se_type event = Try \<or> se_type event = PenaltyTry
                                then Some (se_team event) else None) \<rparr>
          else s\<lparr>scoreEvents := filter (\<lambda>e. se_id e \<noteq> eventId) (scoreEvents s)\<rparr>)"

text \<open>
  \<open>undo\<close>. \<open>lastX?.timestamp || 0\<close> is 0 for a missing record (and for a
  timestamp that is itself 0).
\<close>

definition undo :: "MatchState \<Rightarrow> MatchState" where
  "undo s =
     (let lastEvent = lastElem (scoreEvents s);
          lastCard = lastElem (cards s);
          lastSub = lastElem (substitutionEvents s);
          lastEventTime = (case lastEvent of None \<Rightarrow> 0 | Some e \<Rightarrow> se_timestamp e);
          lastCardTime = (case lastCard of None \<Rightarrow> 0 | Some c \<Rightarrow> c_timestamp c);
          lastSubTime = (case lastSub of None \<Rightarrow> 0 | Some x \<Rightarrow> sub_timestamp x)
      in if lastSubTime \<ge> lastEventTime \<and> lastSubTime \<ge> lastCardTime \<and> lastSub \<noteq> None
         then s\<lparr>substitutionEvents := butlast (substitutionEvents s)\<rparr>
         else if lastEventTime > lastCardTime \<and> lastEventTime > lastSubTime \<and> lastEvent \<noteq> None
         then (case lastEvent of
                 None \<Rightarrow> s
               | Some le \<Rightarrow>
                   (addToScore (se_team le) (- (if se_pending le then 0 else se_points le)) s)
                     \<lparr> scoreEvents := butlast (scoreEvents s),
                       lastTryTeam :=
                         (if se_type le = Conversion then Some (se_team le)
                          else case secondLast (scoreEvents s) of
                                 None \<Rightarrow> None
                               | Some e2 \<Rightarrow> if se_type e2 = Try then Some (se_team e2) else None) \<rparr>)
         else if lastCard \<noteq> None
         then s\<lparr>cards := butlast (cards s)\<rparr>
         else s)"

text \<open>The three local times \<open>undo\<close> compares, as functions of the state.\<close>

definition lastEventTime :: "MatchState \<Rightarrow> int" where
  "lastEventTime s = (case lastElem (scoreEvents s) of None \<Rightarrow> 0 | Some e \<Rightarrow> se_timestamp e)"

definition lastCardTime :: "MatchState \<Rightarrow> int" where
  "lastCardTime s = (case lastElem (cards s) of None \<Rightarrow> 0 | Some c \<Rightarrow> c_timestamp c)"

definition lastSubTime :: "MatchState \<Rightarrow> int" where
  "lastSubTime s =
     (case lastElem (substitutionEvents s) of None \<Rightarrow> 0 | Some x \<Rightarrow> sub_timestamp x)"

definition toggleTimer :: "MatchState \<Rightarrow> MatchState" where
  "toggleTimer s = s\<lparr>isRunning := \<not> isRunning s\<rparr>"

definition tick :: "MatchState \<Rightarrow> MatchState" where
  "tick s =
     (if \<not> isRunning s then s
      else let newElapsed = elapsedSeconds s + 1 in s\<lparr>elapsedSeconds := newElapsed\<rparr>)"

text \<open>
  The \<open>tick\<close> of the earlier copy of the store (src/unnamed/part_000), which pauses the
  clock at the end of regular time.
\<close>

definition tick_legacy :: "MatchState \<Rightarrow> MatchState" where
  "tick_legacy s =
     (if \<not> isRunning s then s
      else
        let newElapsed = elapsedSeconds s + 1;
            regularTime = halfDuration s
        in if newElapsed \<ge> regularTime \<and> elapsedSeconds s < regularTime
           then s\<lparr>elapsedSeconds := newElapsed, isRunning := False\<rparr>
           else s\<lparr>elapsedSeconds := newElapsed\<rparr>)"

definition addInjuryTime :: "MatchState \<Rightarrow> MatchState" where
  "addInjuryTime s = s\<lparr>injuryTime := injuryTime s + 60\<rparr>"

definition startMatch :: "string \<Rightarrow> int \<Rightarrow> MatchState \<Rightarrow> MatchState" where
  "startMatch newId now s =
     (let ev = \<lparr> sys_id = newId, sys_timestamp = now, sys_type = MatchStart,
                  sys_half = 1, sys_matchTime = 0 \<rparr>
      in s\<lparr>matchStarted := True, systemEvents := [ev]\<rparr>)"

definition nextHalf :: "string \<Rightarrow> int \<Rightarrow> MatchState \<Rightarrow> MatchState" where
  "nextHalf newId now s =
     (let halfEv = \<lparr> sys_id = newId, sys_timestamp = now, sys_type = HalfTime,
                      sys_half = currentHalf s, sys_matchTime = elapsedSeconds s \<rparr>
      in s\<lparr>systemEvents := systemEvents s @ [halfEv],
           currentHalf := currentHalf s + 1,
           elapsedSeconds := 0, injuryTime := 0, isRunning := False\<rparr>)"

definition endMatch :: "string \<Rightarrow> int \<Rightarrow> MatchState \<Rightarrow> MatchState" where
  "endMatch newId now s =
     (let closeEv = \<lparr> sys_id = newId, sys_timestamp = now, sys_type = MatchEnd,
                       sys_half = currentHalf s, sys_matchTime = elapsedSeconds s \<rparr>
      in s\<lparr>matchStarted := False, homeScore := 0, awayScore := 0,
           scoreEvents := [], cards := [], players := [], substitutionEvents := [],
           systemEvents := systemEvents s @ [closeEv], cardReturnEvents := [],
           currentHalf := 1, elapsedSeconds := 0, injuryTime := 0,
           isRunning := False, lastTryTeam := None, currentMatchId := None\<rparr>)"

section \<open>Derived views\<close>

record SquadStatus =
  onPitch :: "Player list"
  onBench :: "Player list"

text \<open>
  \<open>getSquadStatus\<close>. \<open>Array.prototype.sort\<close> is stable, as is \<open>sort_key\<close>; the
  JavaScript \<open>Set\<close>s are only asked for membership and are modelled as sets.
\<close>

definition inSinBin :: "team \<Rightarrow> int \<Rightarrow> Card \<Rightarrow> bool" where
  "inSinBin tm elapsed c =
     (c_team c = tm \<and> c_type c = Yellow \<and> \<not> c_returned c \<and>
      (case c_returnTime c of None \<Rightarrow> False | Some r \<Rightarrow> elapsed < r))"

definition getSquadStatus ::
  "team \<Rightarrow> Player list \<Rightarrow> Substitution list \<Rightarrow> Card list \<Rightarrow> int \<Rightarrow> SquadStatus" where
  "getSquadStatus tm pls subs cds elapsed =
     (let teamPlayers = sort_key p_number (filter (\<lambda>p. p_team p = tm) pls);
          teamSubs = filter (\<lambda>x. sub_team x = tm) subs;
          redCardedIds = set (map c_player (filter (\<lambda>c. c_team c = tm \<and> c_type c = Red) cds));
          inSinBinIds = set (map c_player (filter (inSinBin tm elapsed) cds));
          starters = fold (\<lambda>p S. if p_isStarter p then insert (p_id p) S else S) teamPlayers {};
          currentlyOnPitch =
            fold (\<lambda>x S. insert (sub_onPlayerId x) (S - {sub_offPlayerId x})) teamSubs starters
      in \<lparr> onPitch = filter (\<lambda>p. p_id p \<in> currentlyOnPitch \<and> p_id p \<notin> redCardedIds \<and>
                                 p_id p \<notin> inSinBinIds) teamPlayers,
           onBench = filter (\<lambda>p. p_id p \<notin> currentlyOnPitch) teamPlayers \<rparr>)"

text \<open>
  The filter of the \<open>SinBinTimers\<close> component. \<open>c.returnTime && ...\<close> tests
  truthiness, so a return time of 0 counts as missing.
\<close>

definition activeSinBins :: "Card list \<Rightarrow> int \<Rightarrow> Card list" where
  "activeSinBins cds elapsed =
     filter (\<lambda>c. c_type c = Yellow \<and> \<not> c_returned c \<and>
                 (case c_returnTime c of None \<Rightarrow> False | Some r \<Rightarrow> r \<noteq> 0 \<and> elapsed < r)) cds"

section \<open>Persistence (src/db/matches.ts, src/db/types.ts)\<close>

text \<open>
  \<open>LogEvent\<close> has one mandatory kind and optional fields for every event kind; the
  snapshot carries the four event lists that \<open>stateToMatchSnapshot\<close> copies. The four
  object literals pushed by \<open>buildLogFromSnapshot\<close> are the four functions
  \<open>scoreLogEvent\<close>, \<open>cardLogEvent\<close>, \<open>substitutionLogEvent\<close> and
  \<open>systemLogEvent\<close>; \<open>x ?? ''\<close> is \<open>orEmpty\<close>.
\<close>

datatype log_type = LScore | LCard | LSubstitution | LMatchStart | LHalfTime | LMatchEnd

record LogEvent =
  le_id :: string
  le_timestamp :: int
  le_type :: log_type
  le_team :: "team option"
  le_scoreType :: "score_type option"
  le_points :: "int option"
  le_playerId :: "string option"
  le_pending :: "bool option"
  le_cardType :: "card_type option"
  le_returned :: "bool option"
  le_returnTime :: "int option"
  le_offPlayerId :: "string option"
  le_onPlayerId :: "string option"
  le_half :: "int option"
  le_matchTime :: "int option"

record SnapshotConfig =
  cfg_playerTracking :: bool
  cfg_cardTracking :: bool
  cfg_substitutions :: bool

record MatchSnapshot =
  snap_homeTeamName :: string
  snap_awayTeamName :: string
  snap_homeColor :: string
  snap_awayColor :: string
  snap_homeScore :: int
  snap_awayScore :: int
  snap_halfDuration :: int
  snap_competition :: string
  snap_venue :: string
  snap_referee :: string
  snap_currentHalf :: int
  snap_elapsedSeconds :: int
  snap_injuryTime :: int
  snap_config :: SnapshotConfig
  snap_scoreEvents :: "ScoreEvent list"
  snap_cards :: "Card list"
  snap_substitutionEvents :: "Substitution list"
  snap_systemEvents :: "SystemEvent list"
  snap_playerIds :: "string list"

definition emptyLogEvent :: "string \<Rightarrow> int \<Rightarrow> log_type \<Rightarrow> LogEvent" where
  "emptyLogEvent i t ty =
     \<lparr> le_id = i, le_timestamp = t, le_type = ty, le_team = None, le_scoreType = None,
       le_points = None, le_playerId = None, le_pending = None, le_cardType = None,
       le_returned = None, le_returnTime = None, le_offPlayerId = None, le_onPlayerId = None,
       le_half = None, le_matchTime = None \<rparr>"

definition scoreLogEvent :: "ScoreEvent \<Rightarrow> LogEvent" where
  "scoreLogEvent e =
     (emptyLogEvent (se_id e) (se_timestamp e) LScore)
       \<lparr> le_team := Some (se_team e), le_scoreType := Some (se_type e),
         le_points := Some (se_points e), le_playerId := se_player e,
         le_pending := Some (se_pending e), le_half := Some (se_half e),
         le_matchTime := Some (se_matchTime e) \<rparr>"

definition cardLogEvent :: "Card \<Rightarrow> LogEvent" where
  "cardLogEvent c =
     (emptyLogEvent (c_id c) (c_timestamp c) LCard)
       \<lparr> le_team := Some (c_team c), le_cardType := Some (c_type c),
         le_playerId := Some (c_player c), le_returned := Some (c_returned c),
         le_returnTime := c_returnTime c, le_half := Some (c_half c),
         le_matchTime := Some (c_matchTime c) \<rparr>"

definition substitutionLogEvent :: "Substitution \<Rightarrow> LogEvent" where
  "substitutionLogEvent x =
     (emptyLogEvent (sub_id x) (sub_timestamp x) LSubstitution)
       \<lparr> le_team := Some (sub_team x), le_offPlayerId := Some (sub_offPlayerId x),
         le_onPlayerId := Some (sub_onPlayerId x), le_half := Some (sub_half x),
         le_matchTime := Some (sub_matchTime x) \<rparr>"

fun systemLogType :: "system_type \<Rightarrow> log_type" where
  "systemLogType MatchStart = LMatchStart"
| "systemLogType HalfTime = LHalfTime"
| "systemLogType MatchEnd = LMatchEnd"

definition systemLogEvent :: "SystemEvent \<Rightarrow> LogEvent" where
  "systemLogEvent e =
     (emptyLogEvent (sys_id e) (sys_timestamp e) (systemLogType (sys_type e)))
       \<lparr> le_half := Some (sys_half e), le_matchTime := Some (sys_matchTime e) \<rparr>"

definition buildLogFromSnapshot :: "MatchSnapshot \<Rightarrow> LogEvent list" where
  "buildLogFromSnapshot snap =
     sort_key le_timestamp
       (map scoreLogEvent (snap_scoreEvents snap) @
        map cardLogEvent (snap_cards snap) @
        map substitutionLogEvent (snap_substitutionEvents snap) @
        map systemLogEvent (snap_systemEvents snap))"

definition orEmpty :: "string option \<Rightarrow> string" where
  "orEmpty x = (case x of None \<Rightarrow> [] | Some v \<Rightarrow> v)"

definition stateToMatchSnapshot :: "MatchState \<Rightarrow> MatchSnapshot" where
  "stateToMatchSnapshot state =
     \<lparr> snap_homeTeamName = homeTeam state, snap_awayTeamName = awayTeam state,
       snap_homeColor = homeColor state, snap_awayColor = awayColor state,
       snap_homeScore = homeScore state, snap_awayScore = awayScore state,
       snap_halfDuration = halfDuration state,
       snap_competition = orEmpty (competition state),
       snap_venue = orEmpty (venue state),
       snap_referee = orEmpty (referee state),
       snap_currentHalf = currentHalf state, snap_elapsedSeconds = elapsedSeconds state,
       snap_injuryTime = injuryTime state,
       snap_config = \<lparr> cfg_playerTracking = playerTracking state,
                       cfg_cardTracking = cardTracking state,
                       cfg_substitutions = substitutions state \<rparr>,
       snap_scoreEvents = scoreEvents state, snap_cards = cards state,
       snap_substitutionEvents = substitutionEvents state,
       snap_systemEvents = systemEvents state,
       snap_playerIds = map p_id (players state) \<rparr>"

section \<open>Notions of the specification\<close>

text \<open>
  The eligibility rule for conversions in the words of the specification: the most recent
  approved try or penalty try belongs to the team, and no conversion has been recorded
  since.
\<close>

definition spec_conversionEligible :: "ScoreEvent list \<Rightarrow> team \<Rightarrow> bool" where
  "spec_conversionEligible evs tm =
     (case lastElem (filter (\<lambda>e. \<not> se_pending e \<and>
                 (se_type e = Try \<or> se_type e = PenaltyTry \<or> se_type e = Conversion)) evs) of
        None \<Rightarrow> False
      | Some e \<Rightarrow> se_type e \<noteq> Conversion \<and> se_team e = tm)"

text \<open>The sum of the points of the approved score events of a team.\<close>

definition teamPoints :: "team \<Rightarrow> ScoreEvent list \<Rightarrow> int" where
  "teamPoints tm evs =
     sum_list (map se_points (filter (\<lambda>e. se_team e = tm \<and> \<not> se_pending e) evs))"

text \<open>
  The score reducer in the words of the specification: approved events add their points
  to their team; \<open>lastTryTeam\<close> becomes the scoring team on an approved try or penalty
  try and null after a conversion.
\<close>

fun spec_reduce ::
  "ScoreEvent list \<Rightarrow> int \<times> int \<times> team option \<Rightarrow> int \<times> int \<times> team option" where
  "spec_reduce [] acc = acc"
| "spec_reduce (e # es) (h, a, l) =
     (if se_pending e then spec_reduce es (h, a, l)
      else spec_reduce es
             (if se_team e = Home then h + se_points e else h,
              if se_team e = Away then a + se_points e else a,
              if se_type e = Try \<or> se_type e = PenaltyTry then Some (se_team e)
              else if se_type e = Conversion then None else l))"

text \<open>
  The states the store reaches from its initial state. Event ids come from
  \<open>crypto.randomUUID()\<close> and are new; \<open>resolvePendingEvent\<close> is applied, as by the
  buttons of the pending list, to events that are pending (or to an id that is absent).
\<close>

inductive reachable :: "MatchState \<Rightarrow> bool" where
  r_init: "reachable initialState"
| r_addScore:
    "reachable s \<Longrightarrow> newId \<notin> se_id ` set (scoreEvents s) \<Longrightarrow>
     reachable (addScore newId now tm ty player pending s)"
| r_resolvePendingEvent:
    "reachable s \<Longrightarrow> \<forall>e \<in> set (scoreEvents s). se_id e = eventId \<longrightarrow> se_pending e \<Longrightarrow>
     reachable (resolvePendingEvent eventId approved s)"
| r_removeScoreEvent: "reachable s \<Longrightarrow> reachable (removeScoreEvent eventId s)"
| r_updateScoreEventPlayer: "reachable s \<Longrightarrow> reachable (updateScoreEventPlayer eventId playerId s)"
| r_undo: "reachable s \<Longrightarrow> reachable (undo s)"
| r_addCard: "reachable s \<Longrightarrow> reachable (addCard newId now tm p cty s)"
| r_addSubstitution: "reachable s \<Longrightarrow> reachable (addSubstitution newId now tm offId onId onPlayer s)"
| r_removeCard: "reachable s \<Longrightarrow> reachable (removeCard cardId s)"
| r_removeSubstitution: "reachable s \<Longrightarrow> reachable (removeSubstitution subId s)"
| r_returnFromSinBin: "reachable s \<Longrightarrow> reachable (returnFromSinBin newId now cardId s)"
| r_toggleTimer: "reachable s \<Longrightarrow> reachable (toggleTimer s)"
| r_tick: "reachable s \<Longrightarrow> reachable (tick s)"
| r_addInjuryTime: "reachable s \<Longrightarrow> reachable (addInjuryTime s)"
| r_startMatch: "reachable s \<Longrightarrow> reachable (startMatch newId now s)"
| r_nextHalf: "reachable s \<Longrightarrow> reachable (nextHalf newId now s)"
| r_endMatch: "reachable s \<Longrightarrow> reachable (endMatch newId now s)"

definition scoreInv :: "MatchState \<Rightarrow> bool" where
  "scoreInv s \<longleftrightarrow>
     distinct (map se_id (scoreEvents s)) \<and>
     homeScore s = teamPoints Home (scoreEvents s) \<and>
     awayScore s = teamPoints Away (scoreEvents s)"

text \<open>
  The records \<open>undo\<close> chooses from, across the three lists, and the ledgers on which
  its choice is made: every list in order of creation, as appending at the current time
  keeps it, with timestamps after the epoch.
\<close>

datatype ledgerRecord = ScoreRec ScoreEvent | CardRec Card | SubRec Substitution

fun stamp :: "ledgerRecord \<Rightarrow> int" where
  "stamp (ScoreRec e) = se_timestamp e"
| "stamp (CardRec c) = c_timestamp c"
| "stamp (SubRec x) = sub_timestamp x"

fun isSub :: "ledgerRecord \<Rightarrow> bool" where
  "isSub (SubRec x) = True"
| "isSub r = False"

definition ledger :: "MatchState \<Rightarrow> ledgerRecord multiset" where
  "ledger s = mset (map ScoreRec (scoreEvents s)) + mset (map CardRec (cards s)) +
              mset (map SubRec (substitutionEvents s))"

definition chrono :: "MatchState \<Rightarrow> bool" where
  "chrono s \<longleftrightarrow>
     sorted (map se_timestamp (scoreEvents s)) \<and>
     sorted (map c_timestamp (cards s)) \<and>
     sorted (map sub_timestamp (substitutionEvents s)) \<and>
     (\<forall>e \<in> set (scoreEvents s). 0 < se_timestamp e) \<and>
     (\<forall>c \<in> set (cards s). 0 < c_timestamp c) \<and>
     (\<forall>x \<in> set (substitutionEvents s). 0 < sub_timestamp x)"

text \<open>
  Reading a persisted log back: the points of its approved score entries, and the cards
  and substitutions of its card and substitution entries (the log has no minute, which
  is the match time in whole minutes).
\<close>

definition logTeamPoints :: "team \<Rightarrow> LogEvent list \<Rightarrow> int" where
  "logTeamPoints tm lg =
     sum_list (map (\<lambda>l. case le_points l of None \<Rightarrow> 0 | Some n \<Rightarrow> n)
       (filter (\<lambda>l. le_type l = LScore \<and> le_team l = Some tm \<and> le_pending l \<noteq> Some True) lg))"

definition cardOfLog :: "LogEvent \<Rightarrow> Card option" where
  "cardOfLog l =
     (case (le_type l, le_team l, le_cardType l, le_playerId l, le_returned l) of
        (LCard, Some tm, Some ty, Some p, Some r) \<Rightarrow>
          Some \<lparr> c_id = le_id l, c_timestamp = le_timestamp l, c_team = tm, c_player = p,
                 c_type = ty, c_half = (case le_half l of None \<Rightarrow> 0 | Some h \<Rightarrow> h),
                 c_minute = (case le_matchTime l of None \<Rightarrow> 0 | Some t \<Rightarrow> t div 60),
                 c_matchTime = (case le_matchTime l of None \<Rightarrow> 0 | Some t \<Rightarrow> t),
                 c_returnTime = le_returnTime l, c_returned = r \<rparr>
      | _ \<Rightarrow> None)"

definition substitutionOfLog :: "LogEvent \<Rightarrow> Substitution option" where
  "substitutionOfLog l =
     (case (le_type l, le_team l, le_offPlayerId l, le_onPlayerId l) of
        (LSubstitution, Some tm, Some off, Some on) \<Rightarrow>
          Some \<lparr> sub_id = le_id l, sub_timestamp = le_timestamp l, sub_team = tm,
                 sub_offPlayerId = off, sub_onPlayerId = on,
                 sub_half = (case le_half l of None \<Rightarrow> 0 | Some h \<Rightarrow> h),
                 sub_minute = (case le_matchTime l of None \<Rightarrow> 0 | Some t \<Rightarrow> t div 60),
                 sub_matchTime = (case le_matchTime l of None \<Rightarrow> 0 | Some t \<Rightarrow> t) \<rparr>
      | _ \<Rightarrow> None)"

definition logCards :: "LogEvent list \<Rightarrow> Card list" where
  "logCards lg = List.map_filter cardOfLog lg"

definition logSubstitutions :: "LogEvent list \<Rightarrow> Substitution list" where
  "logSubstitutions lg = List.map_filter substitutionOfLog lg"

section \<open>Example sessions\<close>

definition examplePlayer :: "string \<Rightarrow> int \<Rightarrow> bool \<Rightarrow> team \<Rightarrow> Player" where
  "examplePlayer i n st tm =
     \<lparr> p_id = i, p_number = n, p_name = i, p_position = ''Prop'', p_isStarter = st, p_team = tm \<rparr>"

definition exampleRoster :: "Player list" where
  "exampleRoster =
     [examplePlayer ''b'' 2 True Home, examplePlayer ''a'' 1 True Home,
      examplePlayer ''c'' 16 False Home, examplePlayer ''z'' 1 True Away]"

definition scenarioTry :: MatchState where
  "scenarioTry = addScore ''e1'' 1000 Home Try None False initialState"

definition scenarioConverted :: MatchState where
  "scenarioConverted = addScore ''e2'' 2000 Home Conversion None False scenarioTry"

definition scenarioYellow :: MatchState where
  "scenarioYellow =
     addCard ''k1'' 5000 Home ''a'' Yellow (initialState\<lparr>elapsedSeconds := 100\<rparr>)"

definition scenarioReturned :: MatchState where
  "scenarioReturned = returnFromSinBin ''r1'' 6000 ''k1'' scenarioYellow"

definition scenarioApproved :: MatchState where
  "scenarioApproved =
     resolvePendingEvent ''p1'' True (addScore ''p1'' 1000 Home Try None True initialState)"

definition scenarioPenalty :: MatchState where
  "scenarioPenalty = addScore ''e3'' 3000 Away Penalty None False scenarioConverted"

definition scenarioPenaltyTry :: MatchState where
  "scenarioPenaltyTry = addScore ''e1'' 1000 Home PenaltyTry None False initialState"

definition exampleTie :: MatchState where
  "exampleTie =
     addSubstitution ''x1'' 3000 Home ''a'' ''c'' None
       (addScore ''e1'' 3000 Home Try None False
          (addCard ''k1'' 2000 Away ''z'' Red initialState))"

section \<open>Auxiliary facts\<close>

lemmas store_defs =
  addScore_def addCard_def initialState_def lastTry_def lastElem_def addToScore_def Let_def

lemma find_append_list:
  "find P (xs @ ys) = (case find P xs of None \<Rightarrow> find P ys | Some x \<Rightarrow> Some x)"
  by (induction xs) auto

lemma sorted_filter_key: "sorted (map f xs) \<Longrightarrow> sorted (map f (filter P xs))"
  by (induction xs) auto

lemma lastTry_snoc:
  "lastTry (xs @ [x]) = (if se_type x = Try \<and> \<not> se_pending x then Some x else lastTry xs)"
  by (simp add: lastTry_def lastElem_def)

text \<open>
  The guard of \<open>addScore\<close>, read declaratively: the ledger splits around an approved
  try after which no approved try follows.
\<close>

lemma lastTry_Some_iff:
  "lastTry evs = Some e \<longleftrightarrow>
     (\<exists>pre post. evs = pre @ e # post \<and> se_type e = Try \<and> \<not> se_pending e \<and>
        (\<forall>x\<in>set post. \<not> (se_type x = Try \<and> \<not> se_pending x)))"
proof (induction evs rule: rev_induct)
  case Nil
  then show ?case by (simp add: lastTry_def lastElem_def)
next
  case (snoc x xs)
  show ?case
  proof (cases "se_type x = Try \<and> \<not> se_pending x")
    case True
    have "(\<exists>pre post. xs @ [x] = pre @ e # post \<and> se_type e = Try \<and> \<not> se_pending e \<and>
        (\<forall>y\<in>set post. \<not> (se_type y = Try \<and> \<not> se_pending y))) \<longleftrightarrow> x = e"
    proof
      assume "\<exists>pre post. xs @ [x] = pre @ e # post \<and> se_type e = Try \<and> \<not> se_pending e \<and>
        (\<forall>y\<in>set post. \<not> (se_type y = Try \<and> \<not> se_pending y))"
      then obtain pre post where d: "xs @ [x] = pre @ e # post"
        and np: "\<forall>y\<in>set post. \<not> (se_type y = Try \<and> \<not> se_pending y)" by blast
      show "x = e"
      proof (cases post rule: rev_cases)
        case Nil
        with d show ?thesis by simp
      next
        case (snoc post' y)
        with d have "x = y" by (metis append_Cons append_assoc snoc_eq_iff_butlast)
        with snoc np True show ?thesis by auto
      qed
    next
      assume "x = e"
      with True show "\<exists>pre post. xs @ [x] = pre @ e # post \<and> se_type e = Try \<and> \<not> se_pending e \<and>
        (\<forall>y\<in>set post. \<not> (se_type y = Try \<and> \<not> se_pending y))"
        by (intro exI[of _ xs] exI[of _ "[]"]) simp
    qed
    moreover have "lastTry (xs @ [x]) = Some x"
      using True by (simp add: lastTry_snoc)
    ultimately show ?thesis by auto
  next
    case False
    have "(\<exists>pre post. xs @ [x] = pre @ e # post \<and> se_type e = Try \<and> \<not> se_pending e \<and>
        (\<forall>y\<in>set post. \<not> (se_type y = Try \<and> \<not> se_pending y))) \<longleftrightarrow>
        (\<exists>pre post. xs = pre @ e # post \<and> se_type e = Try \<and> \<not> se_pending e \<and>
        (\<forall>y\<in>set post. \<not> (se_type y = Try \<and> \<not> se_pending y)))" (is "?L \<longleftrightarrow> ?R")
    proof
      assume ?L
      then obtain pre post where d: "xs @ [x] = pre @ e # post"
        and pe: "se_type e = Try \<and> \<not> se_pending e"
        and np: "\<forall>y\<in>set post. \<not> (se_type y = Try \<and> \<not> se_pending y)" by blast
      show ?R
      proof (cases post rule: rev_cases)
        case Nil
        with d have "x = e" by simp
        with pe False show ?thesis by simp
      next
        case (snoc post' y)
        with d have "xs = pre @ e # post'" by (metis append_Cons append_assoc butlast_snoc)
        with snoc np pe show ?thesis by auto
      qed
    next
      assume ?R
      then obtain pre post where d: "xs = pre @ e # post"
        and pe: "se_type e = Try \<and> \<not> se_pending e"
        and np: "\<forall>y\<in>set post. \<not> (se_type y = Try \<and> \<not> se_pending y)" by blast
      show ?L
        using d pe np False by (intro exI[of _ pre] exI[of _ "post @ [x]"]) auto
    qed
    moreover have "lastTry (xs @ [x]) = lastTry xs"
      using False by (auto simp: lastTry_snoc)
    ultimately show ?thesis using snoc.IH by simp
  qed
qed

text \<open>
  What the guard of \<open>addScore\<close> lets through: a conversion is appended exactly when the
  most recent approved event of kind \<open>try\<close> is the team's; otherwise the state is
  returned as it is.
\<close>

lemma addScore_conversion_guard:
  fixes s :: MatchState and newId :: string and now :: int and tm :: team
    and pl :: "string option" and pend :: bool
  defines "s' \<equiv> addScore newId now tm Conversion pl pend s"
  defines "ev \<equiv> \<lparr> se_id = newId, se_timestamp = now, se_team = tm, se_type = Conversion,
                   se_points = 2, se_player = pl, se_half = currentHalf s,
                   se_minute = elapsedSeconds s div 60, se_matchTime = elapsedSeconds s,
                   se_pending = pend \<rparr>"
  shows "(scoreEvents s' = scoreEvents s @ [ev] \<longleftrightarrow>
            (\<exists>pre e post. scoreEvents s = pre @ e # post \<and> se_type e = Try \<and> \<not> se_pending e \<and>
               se_team e = tm \<and> (\<forall>x\<in>set post. \<not> (se_type x = Try \<and> \<not> se_pending x)))) \<and>
         (scoreEvents s' \<noteq> scoreEvents s @ [ev] \<longrightarrow> s' = s) \<and>
         (scoreEvents s' = scoreEvents s @ [ev] \<longrightarrow>
            homeScore s' = homeScore s + (if tm = Home \<and> \<not> pend then 2 else 0) \<and>
            awayScore s' = awayScore s + (if tm = Away \<and> \<not> pend then 2 else 0))"
proof -
  let ?E = "\<exists>pre e post. scoreEvents s = pre @ e # post \<and> se_type e = Try \<and> \<not> se_pending e \<and>
               se_team e = tm \<and> (\<forall>x\<in>set post. \<not> (se_type x = Try \<and> \<not> se_pending x))"
  have E: "?E \<longleftrightarrow> (\<exists>e. lastTry (scoreEvents s) = Some e \<and> se_team e = tm)"
    unfolding lastTry_Some_iff by blast
  show ?thesis
  proof (cases "\<exists>e. lastTry (scoreEvents s) = Some e \<and> se_team e = tm")
    case True
    then have "s' = (addToScore tm (if pend then 0 else 2) s)
             \<lparr> scoreEvents := scoreEvents s @ [ev], lastTryTeam := None \<rparr>"
      by (auto simp: s'_def ev_def addScore_def Let_def)
    with True E show ?thesis by (cases tm) (auto simp: addToScore_def)
  next
    case False
    then have "s' = s"
      by (auto simp: s'_def addScore_def split: option.splits)
    with False E show ?thesis by auto
  qed
qed

lemma tick_iter_running:
  "isRunning s \<Longrightarrow> (tick ^^ n) s = s\<lparr>elapsedSeconds := elapsedSeconds s + int n\<rparr>"
  by (induction n) (simp_all add: tick_def)

subsection \<open>The score invariant\<close>

lemma teamPoints_simps [simp]:
  "teamPoints tm [] = 0"
  "teamPoints tm (e # es) =
     (if se_team e = tm \<and> \<not> se_pending e then se_points e else 0) + teamPoints tm es"
  "teamPoints tm (xs @ ys) = teamPoints tm xs + teamPoints tm ys"
  by (simp_all add: teamPoints_def)

lemma loop_scores:
  "fst (removeScoreEvent_loop evs (h, a, l)) = h + teamPoints Home evs \<and>
   fst (snd (removeScoreEvent_loop evs (h, a, l))) = a + teamPoints Away evs"
proof (induction evs arbitrary: h a l)
  case Nil
  then show ?case by simp
next
  case (Cons e es)
  then show ?case
    by (cases "se_team e") (simp_all add: Let_def)
qed

lemma teamPoints_approve:
  "distinct (map se_id evs) \<Longrightarrow> e \<in> set evs \<Longrightarrow> se_pending e \<Longrightarrow>
   teamPoints tm (map (\<lambda>x. if se_id x = se_id e then x\<lparr>se_pending := False\<rparr> else x) evs)
     = teamPoints tm evs + (if se_team e = tm then se_points e else 0)"
proof (induction evs)
  case Nil
  then show ?case by simp
next
  case (Cons x xs)
  show ?case
  proof (cases "x = e")
    case True
    with Cons.prems have "se_id e \<notin> se_id ` set xs" by simp
    then have "\<forall>y\<in>set xs. se_id y \<noteq> se_id e" by (metis imageI)
    then have "map (\<lambda>x. if se_id x = se_id e then x\<lparr>se_pending := False\<rparr> else x) xs = xs"
      by (intro map_idI) auto
    with True Cons.prems show ?thesis by simp
  next
    case False
    with Cons.prems have e: "e \<in> set xs" and ne: "se_id x \<noteq> se_id e" by auto
    with Cons show ?thesis by simp
  qed
qed

lemma teamPoints_reject:
  "\<forall>e\<in>set evs. se_id e = i \<longrightarrow> se_pending e \<Longrightarrow>
   teamPoints tm (filter (\<lambda>e. se_id e \<noteq> i) evs) = teamPoints tm evs"
  by (induction evs) auto

lemma teamPoints_updatePlayer:
  "teamPoints tm (map (\<lambda>e. if se_id e = i then e\<lparr>se_player := p\<rparr> else e) evs) = teamPoints tm evs"
  by (induction evs) auto

lemma teamPoints_butlast:
  "evs \<noteq> [] \<Longrightarrow> teamPoints tm (butlast evs)
     = teamPoints tm evs - (if se_team (last evs) = tm \<and> \<not> se_pending (last evs) then se_points (last evs) else 0)"
  by (induction evs rule: rev_induct) auto

lemma scoreInv_addScore:
  "scoreInv s \<Longrightarrow> newId \<notin> se_id ` set (scoreEvents s) \<Longrightarrow>
   scoreInv (addScore newId now tm ty player pending s)"
  by (cases tm) (auto simp: scoreInv_def addScore_def addToScore_def Let_def)

lemma scoreInv_resolve:
  assumes "scoreInv s" and "\<forall>e \<in> set (scoreEvents s). se_id e = eventId \<longrightarrow> se_pending e"
  shows "scoreInv (resolvePendingEvent eventId approved s)"
proof (cases "find (\<lambda>e. se_id e = eventId) (scoreEvents s)")
  case None
  with assms show ?thesis by (simp add: resolvePendingEvent_def)
next
  case (Some ev)
  then have ev: "ev \<in> set (scoreEvents s)" "se_id ev = eventId"
    by (auto simp: find_Some_iff in_set_conv_nth)
  with assms have pe: "se_pending ev" by auto
  have d: "distinct (map se_id (scoreEvents s))" using assms by (simp add: scoreInv_def)
  show ?thesis
  proof (cases approved)
    case True
    have ids: "map se_id (map (\<lambda>e. if se_id e = eventId then e\<lparr>se_pending := False\<rparr> else e) (scoreEvents s))
        = map se_id (scoreEvents s)" by (induction "scoreEvents s") auto
    show ?thesis using True Some assms(1) teamPoints_approve[OF d ev(1) pe] ev(2) ids
      by (cases "se_team ev") (auto simp: resolvePendingEvent_def scoreInv_def addToScore_def simp del: map_map)
  next
    case False
    then show ?thesis using Some assms teamPoints_reject[OF assms(2)]
      by (auto simp: resolvePendingEvent_def scoreInv_def distinct_map_filter)
  qed
qed

lemma scoreInv_removeScoreEvent: "scoreInv s \<Longrightarrow> scoreInv (removeScoreEvent eventId s)"
  using loop_scores [of "filter (\<lambda>e. se_id e \<noteq> eventId) (scoreEvents s)" 0 0 None]
  by (auto simp: removeScoreEvent_def scoreInv_def Let_def distinct_map_filter
      split: prod.splits)

lemma scoreInv_updatePlayer: "scoreInv s \<Longrightarrow> scoreInv (updateScoreEventPlayer eventId playerId s)"
proof -
  have ids: "map se_id (map (\<lambda>e. if se_id e = eventId then e\<lparr>se_player := playerId\<rparr> else e) (scoreEvents s))
        = map se_id (scoreEvents s)" by (induction "scoreEvents s") auto
  assume "scoreInv s"
  then show ?thesis using ids
    by (simp add: updateScoreEventPlayer_def scoreInv_def teamPoints_updatePlayer del: map_map)
qed

lemma scoreInv_undo: "scoreInv s \<Longrightarrow> scoreInv (undo s)"
proof -
  assume inv: "scoreInv s"
  have bl: "distinct (map se_id (butlast (scoreEvents s)))"
    using inv by (metis distinct_butlast map_butlast scoreInv_def)
  show ?thesis
    using inv bl
    by (cases "se_team (last (scoreEvents s))")
       (auto simp: undo_def Let_def lastElem_def scoreInv_def addToScore_def teamPoints_butlast
        split: option.splits if_splits)
qed

lemma reachable_scoreInv: "reachable s \<Longrightarrow> scoreInv s"
proof (induction rule: reachable.induct)
  case r_init
  then show ?case by (simp add: scoreInv_def initialState_def)
qed (simp_all add: scoreInv_addScore scoreInv_resolve scoreInv_removeScoreEvent
      scoreInv_updatePlayer scoreInv_undo,
     simp_all add: scoreInv_def addCard_def addSubstitution_def removeCard_def
      removeSubstitution_def returnFromSinBin_def toggleTimer_def tick_def addInjuryTime_def
      startMatch_def nextHalf_def endMatch_def Let_def split: option.splits)

subsection \<open>The branches of undo\<close>

lemma undo_branches:
  "undo s =
     (if lastSubTime s \<ge> lastEventTime s \<and> lastSubTime s \<ge> lastCardTime s \<and> substitutionEvents s \<noteq> []
      then s\<lparr>substitutionEvents := butlast (substitutionEvents s)\<rparr>
      else if lastEventTime s > lastCardTime s \<and> lastEventTime s > lastSubTime s \<and> scoreEvents s \<noteq> []
      then (addToScore (se_team (last (scoreEvents s)))
              (- (if se_pending (last (scoreEvents s)) then 0 else se_points (last (scoreEvents s)))) s)
             \<lparr> scoreEvents := butlast (scoreEvents s),
               lastTryTeam :=
                 (if se_type (last (scoreEvents s)) = Conversion
                  then Some (se_team (last (scoreEvents s)))
                  else case secondLast (scoreEvents s) of
                         None \<Rightarrow> None
                       | Some e2 \<Rightarrow> if se_type e2 = Try then Some (se_team e2) else None) \<rparr>
      else if cards s \<noteq> [] then s\<lparr>cards := butlast (cards s)\<rparr>
      else s)"
  by (cases "scoreEvents s = []"; cases "cards s = []"; cases "substitutionEvents s = []")
     (simp_all add: undo_def Let_def lastEventTime_def lastCardTime_def lastSubTime_def lastElem_def)


lemma sorted_last_max:
  "sorted (map f xs) \<Longrightarrow> x \<in> set xs \<Longrightarrow> f x \<le> f (last xs)"
  by (induction xs rule: rev_induct) (auto simp: sorted_append)

lemma mset_snoc_last:
  "xs \<noteq> [] \<Longrightarrow>
   image_mset g (mset xs) = add_mset (g (last xs)) (image_mset g (mset (butlast xs)))"
  by (induction xs rule: rev_induct) auto

lemma ledger_empty_iff:
  "ledger s = {#} \<longleftrightarrow> scoreEvents s = [] \<and> cards s = [] \<and> substitutionEvents s = []"
  by (auto simp: ledger_def)

lemma chrono_bounds:
  assumes ch: "chrono s"
  shows "scoreEvents s \<noteq> [] \<Longrightarrow> 0 < lastEventTime s"
    and "cards s \<noteq> [] \<Longrightarrow> 0 < lastCardTime s"
    and "substitutionEvents s \<noteq> [] \<Longrightarrow> 0 < lastSubTime s"
    and "e \<in> set (scoreEvents s) \<Longrightarrow> se_timestamp e \<le> lastEventTime s"
    and "c \<in> set (cards s) \<Longrightarrow> c_timestamp c \<le> lastCardTime s"
    and "x \<in> set (substitutionEvents s) \<Longrightarrow> sub_timestamp x \<le> lastSubTime s"
  using ch
  by (auto simp: chrono_def lastEventTime_def lastCardTime_def lastSubTime_def lastElem_def intro: sorted_last_max)

lemma stamps_empty:
  "scoreEvents s = [] \<Longrightarrow> lastEventTime s = 0"
  "cards s = [] \<Longrightarrow> lastCardTime s = 0"
  "substitutionEvents s = [] \<Longrightarrow> lastSubTime s = 0"
  by (simp_all add: lastEventTime_def lastCardTime_def lastSubTime_def lastElem_def)

lemma stamps_last:
  "scoreEvents s \<noteq> [] \<Longrightarrow> lastEventTime s = se_timestamp (last (scoreEvents s))"
  "cards s \<noteq> [] \<Longrightarrow> lastCardTime s = c_timestamp (last (cards s))"
  "substitutionEvents s \<noteq> [] \<Longrightarrow> lastSubTime s = sub_timestamp (last (substitutionEvents s))"
  by (simp_all add: lastEventTime_def lastCardTime_def lastSubTime_def lastElem_def)

lemma ledger_bound:
  assumes ch: "chrono s" and r: "r \<in># ledger s"
  shows "stamp r \<le> max (lastEventTime s) (max (lastCardTime s) (lastSubTime s))"
    and "isSub r \<Longrightarrow> stamp r \<le> lastSubTime s"
proof -
  show "stamp r \<le> max (lastEventTime s) (max (lastCardTime s) (lastSubTime s))"
  proof (cases r)
    case (ScoreRec e)
    with r have "e \<in> set (scoreEvents s)" by (auto simp: ledger_def)
    from chrono_bounds(4)[OF ch this] ScoreRec show ?thesis by simp
  next
    case (CardRec c)
    with r have "c \<in> set (cards s)" by (auto simp: ledger_def)
    from chrono_bounds(5)[OF ch this] CardRec show ?thesis by simp
  next
    case (SubRec x)
    with r have "x \<in> set (substitutionEvents s)" by (auto simp: ledger_def)
    from chrono_bounds(6)[OF ch this] SubRec show ?thesis by simp
  qed
  show "stamp r \<le> lastSubTime s" if "isSub r"
  proof (cases r)
    case (SubRec x)
    with r have "x \<in> set (substitutionEvents s)" by (auto simp: ledger_def)
    from chrono_bounds(6)[OF ch this] SubRec show ?thesis by simp
  qed (use that in simp_all)
qed

text \<open>The record picked by undo is the latest one, substitutions first on ties.\<close>

lemma latest_pick:
  assumes ch: "chrono s"
    and l: "ledger s = add_mset r (ledger s')"
    and top: "lastEventTime s \<le> stamp r" "lastCardTime s \<le> stamp r" "lastSubTime s \<le> stamp r"
    and tie: "isSub r \<or> lastSubTime s < stamp r"
  shows "ledger s \<noteq> {#} \<longrightarrow>
            (\<exists>r. ledger s = add_mset r (ledger s') \<and>
                 (\<forall>x \<in># ledger s. stamp x \<le> stamp r) \<and>
                 ((\<exists>x \<in># ledger s. isSub x \<and> stamp x = stamp r) \<longrightarrow> isSub r))"
proof -
  have m: "\<forall>x \<in># ledger s. stamp x \<le> stamp r"
  proof
    fix x assume "x \<in># ledger s"
    from ledger_bound(1)[OF ch this] top show "stamp x \<le> stamp r" by simp
  qed
  have n: "(\<exists>x \<in># ledger s. isSub x \<and> stamp x = stamp r) \<longrightarrow> isSub r"
  proof (intro impI)
    assume "\<exists>x \<in># ledger s. isSub x \<and> stamp x = stamp r"
    then obtain x where x: "x \<in># ledger s" "isSub x" "stamp x = stamp r" by blast
    from ledger_bound(2)[OF ch x(1) x(2)] x(3) tie show "isSub r" by auto
  qed
  from l m n show ?thesis by blast
qed

subsection \<open>Ledgers stay in order of creation\<close>

lemma sorted_butlast_key: "sorted (map f xs) \<Longrightarrow> sorted (map f (butlast xs))"
  by (induction xs rule: rev_induct) (auto simp: sorted_append)

lemma chrono_initialState: "chrono initialState"
  by (simp add: chrono_def initialState_def)

lemma chrono_appends:
  assumes "chrono s" and "0 < now"
  shows "\<forall>e\<in>set (scoreEvents s). se_timestamp e \<le> now \<Longrightarrow>
           chrono (addScore newId now tm ty pl pend s)"
    and "\<forall>c\<in>set (cards s). c_timestamp c \<le> now \<Longrightarrow> chrono (addCard newId now tm p cty s)"
    and "\<forall>x\<in>set (substitutionEvents s). sub_timestamp x \<le> now \<Longrightarrow>
           chrono (addSubstitution newId now tm offId onId onPlayer s)"
  using assms
  by (auto simp: chrono_def addScore_def addCard_def addSubstitution_def addToScore_def Let_def
      sorted_append split: option.splits)

lemma chrono_removals:
  assumes "chrono s"
  shows "chrono (undo s)"
    and "chrono (removeScoreEvent eventId s)"
    and "chrono (removeCard cardId s)"
    and "chrono (removeSubstitution subId s)"
    and "chrono (resolvePendingEvent eventId approved s)"
    and "chrono (updateScoreEventPlayer eventId playerId s)"
    and "chrono (returnFromSinBin newId now cardId s)"
proof -
  have keep1: "map se_timestamp (map (\<lambda>e. if se_id e = i then e\<lparr>se_pending := False\<rparr> else e) xs)
      = map se_timestamp xs" for i xs by (induction xs) auto
  have keep2: "map se_timestamp (map (\<lambda>e. if se_id e = i then e\<lparr>se_player := p\<rparr> else e) xs)
      = map se_timestamp xs" for i p xs by (induction xs) auto
  have keep3: "map c_timestamp (map (\<lambda>c. if c_id c = i then c\<lparr>c_returned := True\<rparr> else c) xs)
      = map c_timestamp xs" for i xs by (induction xs) auto
  show "chrono (undo s)"
    using assms
    by (auto simp: undo_branches chrono_def addToScore_def sorted_butlast_key dest: in_set_butlastD)
  show "chrono (removeScoreEvent eventId s)"
    using assms by (auto simp: removeScoreEvent_def chrono_def Let_def sorted_filter_key split: prod.splits)
  show "chrono (removeCard cardId s)"
    using assms by (auto simp: removeCard_def chrono_def sorted_filter_key)
  show "chrono (removeSubstitution subId s)"
    using assms by (auto simp: removeSubstitution_def chrono_def sorted_filter_key)
  show "chrono (resolvePendingEvent eventId approved s)"
    using assms keep1[of eventId "scoreEvents s"]
    by (auto simp: resolvePendingEvent_def chrono_def addToScore_def sorted_filter_key
        simp del: map_map split: option.splits)
  show "chrono (updateScoreEventPlayer eventId playerId s)"
    using assms keep2[of eventId playerId "scoreEvents s"]
    by (auto simp: updateScoreEventPlayer_def chrono_def simp del: map_map)
  show "chrono (returnFromSinBin newId now cardId s)"
    using assms keep3[of cardId "cards s"]
    by (auto simp: returnFromSinBin_def chrono_def Let_def simp del: map_map split: option.splits)
qed

lemma chrono_clock_and_lifecycle:
  assumes "chrono s"
  shows "chrono (tick s)" and "chrono (toggleTimer s)" and "chrono (addInjuryTime s)"
    and "chrono (startMatch newId now s)" and "chrono (nextHalf newId now s)"
    and "chrono (endMatch newId now s)"
  using assms
  by (simp_all add: chrono_def tick_def toggleTimer_def addInjuryTime_def startMatch_def
      nextHalf_def endMatch_def Let_def)

lemma exampleTie_lists:
  "map se_timestamp (scoreEvents exampleTie) = [3000]"
  "map c_timestamp (cards exampleTie) = [2000]"
  "map sub_timestamp (substitutionEvents exampleTie) = [3000]"
  by (simp_all add: exampleTie_def addSubstitution_def addScore_def addCard_def addToScore_def
      initialState_def Let_def)

lemma reachable_exampleTie: "reachable exampleTie"
  unfolding exampleTie_def
  by (intro r_addSubstitution r_addScore r_addCard r_init) (simp add: addCard_def initialState_def)

subsection \<open>The log and its read-back\<close>

lemmas entry_defs = scoreLogEvent_def cardLogEvent_def substitutionLogEvent_def
  systemLogEvent_def emptyLogEvent_def

lemma ofLog_simps [simp]:
  "cardOfLog (scoreLogEvent e) = None"
  "cardOfLog (cardLogEvent c) = Some (c\<lparr>c_minute := c_matchTime c div 60\<rparr>)"
  "cardOfLog (substitutionLogEvent x) = None"
  "cardOfLog (systemLogEvent y) = None"
  "substitutionOfLog (scoreLogEvent e) = None"
  "substitutionOfLog (cardLogEvent c) = None"
  "substitutionOfLog (substitutionLogEvent x) = Some (x\<lparr>sub_minute := sub_matchTime x div 60\<rparr>)"
  "substitutionOfLog (systemLogEvent y) = None"
  by (cases "sys_type y"; simp add: cardOfLog_def substitutionOfLog_def entry_defs)+

lemma sum_list_mset_cong:
  fixes f :: "'a \<Rightarrow> int"
  assumes "mset xs = mset ys"
  shows "sum_list (map f xs) = sum_list (map f ys)"
proof -
  from assms have "image_mset f (mset xs) = image_mset f (mset ys)" by simp
  then have "sum_mset (mset (map f xs)) = sum_mset (mset (map f ys))" by simp
  then show ?thesis by (simp only: sum_mset_sum_list)
qed

lemma logTeamPoints_sort: "logTeamPoints tm (sort_key k lg) = logTeamPoints tm lg"
proof -
  have "mset (filter P (sort_key k lg)) = mset (filter P lg)" for P :: "LogEvent \<Rightarrow> bool"
    by simp
  then show ?thesis
    unfolding logTeamPoints_def by (rule sum_list_mset_cong)
qed

lemma logTeamPoints_append [simp]:
  "logTeamPoints tm (xs @ ys) = logTeamPoints tm xs + logTeamPoints tm ys"
  by (simp add: logTeamPoints_def)

lemma le_fields [simp]:
  "le_type (scoreLogEvent e) = LScore" "le_team (scoreLogEvent e) = Some (se_team e)"
  "le_pending (scoreLogEvent e) = Some (se_pending e)" "le_points (scoreLogEvent e) = Some (se_points e)"
  "le_type (cardLogEvent c) = LCard" "le_type (substitutionLogEvent x) = LSubstitution"
  "le_type (systemLogEvent y) \<noteq> LScore"
  by (cases "sys_type y"; simp add: entry_defs)+

lemma logTeamPoints_score: "logTeamPoints tm (map scoreLogEvent S) = teamPoints tm S"
    by (induction S) (simp_all add: logTeamPoints_def teamPoints_def)
lemma logTeamPoints_card: "logTeamPoints tm (map cardLogEvent C) = 0"
    by (induction C) (simp_all add: logTeamPoints_def)
lemma logTeamPoints_substitution: "logTeamPoints tm (map substitutionLogEvent X) = 0"
    by (induction X) (simp_all add: logTeamPoints_def)
lemma logTeamPoints_system: "logTeamPoints tm (map systemLogEvent Y) = 0"
    by (induction Y) (simp_all add: logTeamPoints_def)

lemma squad_cards_set:
  "set cds = set cds' \<Longrightarrow> getSquadStatus tm pls subs cds e = getSquadStatus tm pls subs cds' e"
  by (simp add: getSquadStatus_def)

lemma squad_cards_minute:
  "getSquadStatus tm pls subs (map (\<lambda>c. c\<lparr>c_minute := m c\<rparr>) cds) e
     = getSquadStatus tm pls subs cds e"
proof -
  have 1: "map c_player (filter P (map (\<lambda>c. c\<lparr>c_minute := m c\<rparr>) cds))
      = map c_player (filter P cds)" if "\<And>c. P (c\<lparr>c_minute := m c\<rparr>) = P c" for P
    using that by (induction cds) auto
  have r: "map c_player (filter (\<lambda>c. c_team c = tm \<and> c_type c = Red)
               (map (\<lambda>c. c\<lparr>c_minute := m c\<rparr>) cds))
      = map c_player (filter (\<lambda>c. c_team c = tm \<and> c_type c = Red) cds)"
    by (rule 1) simp
  have y: "map c_player (filter (inSinBin tm e) (map (\<lambda>c. c\<lparr>c_minute := m c\<rparr>) cds))
      = map c_player (filter (inSinBin tm e) cds)"
    by (rule 1) (simp add: inSinBin_def)
  show ?thesis
    unfolding getSquadStatus_def Let_def r y ..
qed

lemma squad_subs_minute:
  "getSquadStatus tm pls (map (\<lambda>x. x\<lparr>sub_minute := m x\<rparr>) subs) cds e
     = getSquadStatus tm pls subs cds e"
proof -
  have f: "filter (\<lambda>x. sub_team x = tm) (map (\<lambda>x. x\<lparr>sub_minute := m x\<rparr>) subs)
      = map (\<lambda>x. x\<lparr>sub_minute := m x\<rparr>) (filter (\<lambda>x. sub_team x = tm) subs)"
    by (induction subs) auto
  have g: "fold (\<lambda>x S. insert (sub_onPlayerId x) (S - {sub_offPlayerId x}))
             (map (\<lambda>x. x\<lparr>sub_minute := m x\<rparr>) xs) A
      = fold (\<lambda>x S. insert (sub_onPlayerId x) (S - {sub_offPlayerId x})) xs A" for xs A
    by (induction xs arbitrary: A) auto
  show ?thesis
    unfolding getSquadStatus_def Let_def f g ..
qed

lemma map_filter_append:
  "List.map_filter f (xs @ ys) = List.map_filter f xs @ List.map_filter f ys"
  by (simp add: List.map_filter_def)

lemma cards_of_entries:
  "List.map_filter cardOfLog (map scoreLogEvent S) = []"
  "List.map_filter cardOfLog (map cardLogEvent C)
     = map (\<lambda>c. c\<lparr>c_minute := c_matchTime c div 60\<rparr>) C"
  "List.map_filter cardOfLog (map substitutionLogEvent X) = []"
  "List.map_filter cardOfLog (map systemLogEvent Y) = []"
proof -
  show "List.map_filter cardOfLog (map scoreLogEvent S) = []"
    by (induction S) (simp_all add: List.map_filter_simps)
  show "List.map_filter cardOfLog (map cardLogEvent C)
     = map (\<lambda>c. c\<lparr>c_minute := c_matchTime c div 60\<rparr>) C"
    by (induction C) (simp_all add: List.map_filter_simps)
  show "List.map_filter cardOfLog (map substitutionLogEvent X) = []"
    by (induction X) (simp_all add: List.map_filter_simps)
  show "List.map_filter cardOfLog (map systemLogEvent Y) = []"
    by (induction Y) (simp_all add: List.map_filter_simps)
qed

lemma map_filter_set_cong:
  "set xs = set ys \<Longrightarrow> set (List.map_filter f xs) = set (List.map_filter f ys)"
  by (simp add: List.map_filter_def)

lemma logCards_set:
  "set (logCards (buildLogFromSnapshot (stateToMatchSnapshot s)))
     = set (map (\<lambda>c. c\<lparr>c_minute := c_matchTime c div 60\<rparr>) (cards s))"
proof -
  let ?all = "map scoreLogEvent (scoreEvents s) @ map cardLogEvent (cards s) @
        map substitutionLogEvent (substitutionEvents s) @ map systemLogEvent (systemEvents s)"
  have "set (logCards (buildLogFromSnapshot (stateToMatchSnapshot s)))
      = set (List.map_filter cardOfLog ?all)"
    unfolding logCards_def buildLogFromSnapshot_def stateToMatchSnapshot_def
    by (rule map_filter_set_cong) simp
  also have "List.map_filter cardOfLog ?all
      = map (\<lambda>c. c\<lparr>c_minute := c_matchTime c div 60\<rparr>) (cards s)"
    by (simp only: map_filter_append cards_of_entries append_Nil append_Nil2)
  finally show ?thesis .
qed



lemma subs_of_entries:
  "filter (\<lambda>l. substitutionOfLog l \<noteq> None) (map scoreLogEvent S) = []"
  "filter (\<lambda>l. substitutionOfLog l \<noteq> None) (map cardLogEvent C) = []"
  "filter (\<lambda>l. substitutionOfLog l \<noteq> None) (map systemLogEvent Y) = []"
  "filter (\<lambda>l. substitutionOfLog l \<noteq> None) (map substitutionLogEvent X)
     = map substitutionLogEvent X"
proof -
  show "filter (\<lambda>l. substitutionOfLog l \<noteq> None) (map scoreLogEvent S) = []"
    by (induction S) simp_all
  show "filter (\<lambda>l. substitutionOfLog l \<noteq> None) (map cardLogEvent C) = []"
    by (induction C) simp_all
  show "filter (\<lambda>l. substitutionOfLog l \<noteq> None) (map systemLogEvent Y) = []"
    by (induction Y) simp_all
  show "filter (\<lambda>l. substitutionOfLog l \<noteq> None) (map substitutionLogEvent X)
     = map substitutionLogEvent X"
    by (induction X) simp_all
qed

lemma logSubstitutions_sorted:
  assumes "sorted (map sub_timestamp (substitutionEvents s))"
  shows "logSubstitutions (buildLogFromSnapshot (stateToMatchSnapshot s))
     = map (\<lambda>x. x\<lparr>sub_minute := sub_matchTime x div 60\<rparr>) (substitutionEvents s)"
proof -
  let ?X = "substitutionEvents s"
  have ts: "le_timestamp \<circ> substitutionLogEvent = sub_timestamp"
    by (auto simp: entry_defs)
  have "filter (\<lambda>l. substitutionOfLog l \<noteq> None) (buildLogFromSnapshot (stateToMatchSnapshot s))
      = sort_key le_timestamp (map substitutionLogEvent ?X)"
    by (simp add: buildLogFromSnapshot_def stateToMatchSnapshot_def filter_sort subs_of_entries)
  also have "\<dots> = map substitutionLogEvent ?X"
    using assms by (intro sort_key_id_if_sorted) (simp add: ts)
  finally show ?thesis
    by (simp add: logSubstitutions_def List.map_filter_def comp_def)
qed



section \<open>Conversion acceptance (C2)\<close>

text \<open>
  C2: a conversion is to be recorded exactly when the most recent approved try or penalty
  try is the team's and no conversion has used it up, and to change nothing otherwise. The
  guard of \<open>addScore\<close> looks for the last approved event of kind \<open>try\<close> instead of
  the eligibility the store keeps in \<open>lastTryTeam\<close>. After a home try and its conversion
  (eligibility used up, \<open>lastTryTeam\<close> null) a second home conversion is recorded and the
  home score goes from 7 to 9; after an approved home penalty try (eligible,
  \<open>lastTryTeam\<close> home) a home conversion is refused and the state stays as it is.
\<close>

theorem addScore_conversion_divergence:
  "\<not> spec_conversionEligible (scoreEvents scenarioConverted) Home \<and>
   lastTryTeam scenarioConverted = None \<and>
   map se_id (scoreEvents scenarioConverted) = [''e1'', ''e2''] \<and>
   homeScore scenarioConverted = 7 \<and>
   map se_id (scoreEvents (addScore ''e3'' 3000 Home Conversion None False scenarioConverted))
     = [''e1'', ''e2'', ''e3''] \<and>
   homeScore (addScore ''e3'' 3000 Home Conversion None False scenarioConverted) = 9 \<and>
   spec_conversionEligible (scoreEvents scenarioPenaltyTry) Home \<and>
   lastTryTeam scenarioPenaltyTry = Some Home \<and>
   homeScore scenarioPenaltyTry = 7 \<and>
   addScore ''e2'' 2000 Home Conversion None False scenarioPenaltyTry = scenarioPenaltyTry"
  by (simp add: store_defs scenarioTry_def scenarioConverted_def scenarioPenaltyTry_def
      spec_conversionEligible_def)

section \<open>Pending score events (C4)\<close>

text \<open>
  C4, as the store implements it: adding a pending score event changes neither score, and
  \<open>lastTryTeam\<close> is not kept. When the call is a conversion that the guard refuses (no
  approved try in the ledger, or the most recent one is the other team's), the whole state is
  unchanged. In every other case exactly one event is appended, pending, with the given id,
  time, team, kind and player and the points of its kind, \<open>lastTryTeam\<close> is set to null,
  and nothing else changes.
\<close>

theorem addScore_pending_neutral:
  fixes s :: MatchState and newId :: string and now :: int and tm :: team
    and ty :: score_type and pl :: "string option"
  defines "s' \<equiv> addScore newId now tm ty pl True s"
  defines "ev \<equiv> \<lparr> se_id = newId, se_timestamp = now, se_team = tm, se_type = ty,
                   se_points = points ty, se_player = pl, se_half = currentHalf s,
                   se_minute = elapsedSeconds s div 60, se_matchTime = elapsedSeconds s,
                   se_pending = True \<rparr>"
  defines "refused \<equiv> ty = Conversion \<and>
             \<not> (\<exists>pre e post. scoreEvents s = pre @ e # post \<and> se_type e = Try \<and>
                   \<not> se_pending e \<and> se_team e = tm \<and>
                   (\<forall>x\<in>set post. \<not> (se_type x = Try \<and> \<not> se_pending x)))"
  shows "homeScore s' = homeScore s \<and> awayScore s' = awayScore s \<and>
         (refused \<longrightarrow> s' = s) \<and>
         (\<not> refused \<longrightarrow>
            s' = s\<lparr>scoreEvents := scoreEvents s @ [ev], lastTryTeam := None\<rparr>)"
proof -
  have g: "(\<exists>pre e post. scoreEvents s = pre @ e # post \<and> se_type e = Try \<and>
                   \<not> se_pending e \<and> se_team e = tm \<and>
                   (\<forall>x\<in>set post. \<not> (se_type x = Try \<and> \<not> se_pending x)))
        \<longleftrightarrow> (\<exists>e. lastTry (scoreEvents s) = Some e \<and> se_team e = tm)"
    unfolding lastTry_Some_iff by blast
  have r: "refused \<longleftrightarrow> (ty = Conversion \<and>
         (case lastTry (scoreEvents s) of None \<Rightarrow> True | Some lt \<Rightarrow> se_team lt \<noteq> tm))"
    unfolding refused_def g by (auto split: option.splits)
  show ?thesis
  proof (cases refused)
    case True
    with r have "s' = s" by (simp add: s'_def addScore_def)
    with True show ?thesis by simp
  next
    case False
    with r have "s' = s\<lparr>scoreEvents := scoreEvents s @ [ev], lastTryTeam := None\<rparr>"
      by (cases tm) (auto simp: s'_def ev_def addScore_def addToScore_def Let_def)
    with False show ?thesis by simp
  qed
qed

theorem addScore_pending_neutral_witness:
  "lastTryTeam (addScore ''e2'' 2000 Away Penalty None True scenarioTry) = None \<and>
   map se_id (scoreEvents (addScore ''e2'' 2000 Away Penalty None True scenarioTry))
     = [''e1'', ''e2''] \<and>
   map se_pending (scoreEvents (addScore ''e2'' 2000 Away Penalty None True scenarioTry))
     = [False, True] \<and>
   homeScore (addScore ''e2'' 2000 Away Penalty None True scenarioTry) = 5 \<and>
   awayScore (addScore ''e2'' 2000 Away Penalty None True scenarioTry) = 0 \<and>
   addScore ''c1'' 1000 Home Conversion None True initialState = initialState"
proof -
  have ids: "map se_id (scoreEvents scenarioTry) = [''e1'']"
    and pend: "map se_pending (scoreEvents scenarioTry) = [False]"
    and h: "homeScore scenarioTry = 5" and a: "awayScore scenarioTry = 0"
    by (simp_all add: store_defs scenarioTry_def)
  have e: "scoreEvents initialState = []" by (simp add: initialState_def)
  show ?thesis
    using addScore_pending_neutral [where s = scenarioTry and newId = "''e2''" and now = 2000
        and tm = Away and ty = Penalty and pl = None]
      addScore_pending_neutral [where s = initialState and newId = "''c1''" and now = 1000
        and tm = Home and ty = Conversion and pl = None]
      ids pend h a e
    by simp
qed

text \<open>
  C4 as stated fails: a pending away penalty recorded after an approved home try resets
  \<open>lastTryTeam\<close> from home to null.
\<close>

theorem addScore_pending_counterexample:
  "lastTryTeam scenarioTry = Some Home \<and>
   lastTryTeam (addScore ''e2'' 2000 Away Penalty None True scenarioTry) = None"
  by (simp add: store_defs scenarioTry_def)

section \<open>The clock (C7)\<close>

text \<open>
  C7, as the store implements it: \<open>tick\<close> leaves the state unchanged when the match is
  not running; when running it adds one to \<open>elapsedSeconds\<close> and changes nothing else.
  It never clears the running flag, so any number of ticks from a running state advance
  the clock by that number and leave it running. Only the tick of the earlier copy of the
  store pauses, on the one tick that makes the elapsed time equal to the half duration.
\<close>

theorem tick_contract:
  "(\<not> isRunning s \<longrightarrow> tick s = s \<and> tick_legacy s = s) \<and>
   (isRunning s \<longrightarrow>
      tick s = s\<lparr>elapsedSeconds := elapsedSeconds s + 1\<rparr> \<and>
      (tick ^^ n) s = s\<lparr>elapsedSeconds := elapsedSeconds s + int n\<rparr> \<and>
      isRunning ((tick ^^ n) s) \<and>
      elapsedSeconds (tick_legacy s) = elapsedSeconds s + 1 \<and>
      (tick_legacy s)\<lparr>isRunning := True\<rparr> = tick s \<and>
      (isRunning (tick_legacy s) \<longleftrightarrow> elapsedSeconds s + 1 \<noteq> halfDuration s))"
  by (auto simp: tick_iter_running tick_def tick_legacy_def Let_def)

theorem tick_contract_witness:
  "\<not> isRunning initialState \<and> tick initialState = initialState \<and>
   isRunning (initialState\<lparr>isRunning := True\<rparr>) \<and>
   elapsedSeconds ((tick ^^ 2400) (initialState\<lparr>isRunning := True\<rparr>)) = 2400 \<and>
   isRunning ((tick ^^ 2400) (initialState\<lparr>isRunning := True\<rparr>))"
  using tick_contract [of initialState 0]
    tick_contract [of "initialState\<lparr>isRunning := True\<rparr>" 2400]
  by (simp add: initialState_def)

text \<open>
  C7 as stated fails: the tick that brings a running clock from 2399 to the half duration
  of 2400 seconds leaves the match running.
\<close>

theorem tick_auto_pause_counterexample:
  "elapsedSeconds (tick (initialState\<lparr>isRunning := True, elapsedSeconds := 2399\<rparr>))
     = halfDuration initialState \<and>
   isRunning (tick (initialState\<lparr>isRunning := True, elapsedSeconds := 2399\<rparr>))"
  by (simp add: tick_def initialState_def)

section \<open>Removing cards and substitutions (C9)\<close>

text \<open>
  C9: \<open>removeCard\<close> changes only the list of cards and \<open>removeSubstitution\<close> only the
  list of substitutions; every other field of the state keeps its value, and removing an
  id that is not in the list leaves the state as it is.
\<close>

theorem removeCard_removeSubstitution_frame:
  "removeCard cardId s = s\<lparr>cards := filter (\<lambda>c. c_id c \<noteq> cardId) (cards s)\<rparr> \<and>
   removeSubstitution subId s =
     s\<lparr>substitutionEvents := filter (\<lambda>x. sub_id x \<noteq> subId) (substitutionEvents s)\<rparr> \<and>
   homeScore (removeCard cardId s) = homeScore s \<and>
   awayScore (removeCard cardId s) = awayScore s \<and>
   lastTryTeam (removeCard cardId s) = lastTryTeam s \<and>
   scoreEvents (removeCard cardId s) = scoreEvents s \<and>
   systemEvents (removeCard cardId s) = systemEvents s \<and>
   elapsedSeconds (removeCard cardId s) = elapsedSeconds s \<and>
   substitutionEvents (removeCard cardId s) = substitutionEvents s \<and>
   homeScore (removeSubstitution subId s) = homeScore s \<and>
   awayScore (removeSubstitution subId s) = awayScore s \<and>
   lastTryTeam (removeSubstitution subId s) = lastTryTeam s \<and>
   scoreEvents (removeSubstitution subId s) = scoreEvents s \<and>
   systemEvents (removeSubstitution subId s) = systemEvents s \<and>
   elapsedSeconds (removeSubstitution subId s) = elapsedSeconds s \<and>
   cards (removeSubstitution subId s) = cards s \<and>
   (cardId \<notin> c_id ` set (cards s) \<longrightarrow> removeCard cardId s = s) \<and>
   (subId \<notin> sub_id ` set (substitutionEvents s) \<longrightarrow> removeSubstitution subId s = s)"
proof -
  have c: "cardId \<notin> c_id ` set (cards s) \<Longrightarrow>
      filter (\<lambda>c. c_id c \<noteq> cardId) (cards s) = cards s"
    by (auto simp: filter_id_conv)
  have x: "subId \<notin> sub_id ` set (substitutionEvents s) \<Longrightarrow>
      filter (\<lambda>x. sub_id x \<noteq> subId) (substitutionEvents s) = substitutionEvents s"
    by (auto simp: filter_id_conv)
  show ?thesis using c x by (simp add: removeCard_def removeSubstitution_def)
qed

theorem removeCard_removeSubstitution_frame_witness:
  "''k9'' \<notin> c_id ` set (cards scenarioYellow) \<and>
   ''k9'' \<notin> sub_id ` set (substitutionEvents scenarioYellow) \<and>
   removeCard ''k9'' scenarioYellow = scenarioYellow \<and>
   removeSubstitution ''k9'' scenarioYellow = scenarioYellow"
  using removeCard_removeSubstitution_frame [of "''k9''" scenarioYellow "''k9''"]
  by (simp add: store_defs scenarioYellow_def)

section \<open>Squad status (C10, C3)\<close>

text \<open>
  C10: for every team, player list, substitution list, card list and elapsed time, the
  lists \<open>onPitch\<close> and \<open>onBench\<close> of \<open>getSquadStatus\<close> have no player in common
  (no record and no player id), are each in ascending order of shirt number, and hold only
  players of the requested team.
\<close>

theorem getSquadStatus_partition:
  "set (onPitch (getSquadStatus tm pls subs cds elapsed)) \<inter>
     set (onBench (getSquadStatus tm pls subs cds elapsed)) = {} \<and>
   p_id ` set (onPitch (getSquadStatus tm pls subs cds elapsed)) \<inter>
     p_id ` set (onBench (getSquadStatus tm pls subs cds elapsed)) = {} \<and>
   sorted (map p_number (onPitch (getSquadStatus tm pls subs cds elapsed))) \<and>
   sorted (map p_number (onBench (getSquadStatus tm pls subs cds elapsed))) \<and>
   (\<forall>p \<in> set (onPitch (getSquadStatus tm pls subs cds elapsed)) \<union>
          set (onBench (getSquadStatus tm pls subs cds elapsed)). p_team p = tm)"
proof -
  have srt: "sorted (map p_number (sort_key p_number (filter (\<lambda>p. p_team p = tm) pls)))"
    by simp
  show ?thesis
    unfolding getSquadStatus_def Let_def
    using sorted_filter_key[OF srt] by auto
qed

theorem getSquadStatus_partition_witness:
  "examplePlayer ''b'' 2 True Home \<in>
     set (onPitch (getSquadStatus Home exampleRoster [] (cards scenarioYellow) 650)) \<union>
     set (onBench (getSquadStatus Home exampleRoster [] (cards scenarioYellow) 650)) \<and>
   p_team (examplePlayer ''b'' 2 True Home) = Home \<and>
   map p_id (onPitch (getSquadStatus Home exampleRoster [] (cards scenarioYellow) 650)) = [''b''] \<and>
   map p_id (onBench (getSquadStatus Home exampleRoster [] (cards scenarioYellow) 650)) = [''c'']"
  using getSquadStatus_partition [of Home exampleRoster "[]" "cards scenarioYellow" 650]
  by (simp add: getSquadStatus_def store_defs scenarioYellow_def exampleRoster_def examplePlayer_def inSinBin_def)

text \<open>
  C3: a yellow card added at elapsed time \<open>T\<close> is stored with return time \<open>T + 600\<close> and
  not returned. At every elapsed time in \<open>[T, T + 600)\<close> the carded player is kept off
  \<open>onPitch\<close> and the card is among the active sin bins; at every elapsed time from
  \<open>T + 600\<close> on the card excludes nobody: squad status and active sin bins are what they
  are without it. Once the card is marked returned, the same holds at every elapsed time.
  The clock never runs below zero, and card ids are unique.
\<close>

theorem sin_bin_boundary:
  assumes T: "T = elapsedSeconds s" and nn: "0 \<le> T"
    and s': "s' = addCard newId now tm p Yellow s"
  shows "\<exists>c. cards s' = cards s @ [c] \<and> c_player c = p \<and> c_team c = tm \<and>
           c_returnTime c = Some (T + 600) \<and> \<not> c_returned c \<and>
           (\<forall>e. T \<le> e \<and> e < T + 600 \<longrightarrow>
                p \<notin> p_id ` set (onPitch (getSquadStatus tm pls subs (cards s') e)) \<and>
                c \<in> set (activeSinBins (cards s') e)) \<and>
           (\<forall>e. T + 600 \<le> e \<longrightarrow>
                getSquadStatus tm pls subs (cards s') e = getSquadStatus tm pls subs (cards s) e \<and>
                activeSinBins (cards s') e = activeSinBins (cards s) e) \<and>
           (newId \<notin> c_id ` set (cards s) \<longrightarrow>
              (\<forall>e. getSquadStatus tm pls subs (cards (returnFromSinBin rid now' newId s')) e
                     = getSquadStatus tm pls subs (cards s) e \<and>
                   activeSinBins (cards (returnFromSinBin rid now' newId s')) e
                     = activeSinBins (cards s) e))"
proof -
  define c where "c = \<lparr> c_id = newId, c_timestamp = now, c_team = tm, c_player = p,
                    c_type = Yellow, c_half = currentHalf s, c_minute = T div 60, c_matchTime = T,
                    c_returnTime = Some (T + 600), c_returned = False \<rparr>"
  have cs: "cards s' = cards s @ [c]"
    by (simp add: s' addCard_def c_def T)
  have in1: "\<And>e. inSinBin tm e c \<longleftrightarrow> e < T + 600"
    by (simp add: c_def inSinBin_def)
  have ex: "\<And>e. e < T + 600 \<Longrightarrow>
      p \<notin> p_id ` set (onPitch (getSquadStatus tm pls subs (cards s') e))"
    unfolding getSquadStatus_def Let_def cs using in1
    by (auto simp: c_def)
  have act: "\<And>e. e < T + 600 \<Longrightarrow> c \<in> set (activeSinBins (cards s') e)"
    using nn by (auto simp: activeSinBins_def cs c_def)
  have after: "\<And>e. T + 600 \<le> e \<Longrightarrow>
      getSquadStatus tm pls subs (cards s') e = getSquadStatus tm pls subs (cards s) e"
    unfolding getSquadStatus_def Let_def cs using in1
    by (auto simp: c_def)
  have after2: "\<And>e. T + 600 \<le> e \<Longrightarrow> activeSinBins (cards s') e = activeSinBins (cards s) e"
    by (auto simp: activeSinBins_def cs c_def)
  have ret: "cards (returnFromSinBin rid now' newId s') = cards s @ [c\<lparr>c_returned := True\<rparr>]"
    if fresh: "newId \<notin> c_id ` set (cards s)"
  proof -
    have "find (\<lambda>x. c_id x = newId) (cards s) = None"
      using fresh by (auto simp: find_None_iff)
    then have f: "find (\<lambda>x. c_id x = newId) (cards s @ [c]) = Some c"
      by (simp add: find_append_list c_def)
    have m: "map (\<lambda>x. if c_id x = newId then x\<lparr>c_returned := True\<rparr> else x) (cards s) = cards s"
      using fresh by (intro map_idI) auto
    show ?thesis
      by (simp add: returnFromSinBin_def cs f m) (simp add: c_def)
  qed
  have ret1: "newId \<notin> c_id ` set (cards s) \<Longrightarrow>
      getSquadStatus tm pls subs (cards (returnFromSinBin rid now' newId s')) e
                     = getSquadStatus tm pls subs (cards s) e" for e
    unfolding getSquadStatus_def Let_def by (simp add: ret) (simp add: c_def inSinBin_def)
  have ret2: "newId \<notin> c_id ` set (cards s) \<Longrightarrow>
      activeSinBins (cards (returnFromSinBin rid now' newId s')) e = activeSinBins (cards s) e" for e
    by (simp add: ret activeSinBins_def)
  show ?thesis
    apply (rule exI[of _ c])
    using cs ex act after after2 ret1 ret2 by (simp add: c_def)
qed

theorem sin_bin_boundary_witness:
  "(100::int) = elapsedSeconds (initialState\<lparr>elapsedSeconds := 100\<rparr>) \<and> (0::int) \<le> 100 \<and>
   map c_returnTime (cards scenarioYellow) = [Some 700] \<and>
   ''a'' \<notin> p_id ` set (onPitch (getSquadStatus Home exampleRoster [] (cards scenarioYellow) 650)) \<and>
   getSquadStatus Home exampleRoster [] (cards scenarioYellow) 700
     = getSquadStatus Home exampleRoster [] [] 700 \<and>
   map p_id (onPitch (getSquadStatus Home exampleRoster [] (cards scenarioYellow) 700))
     = [''a'', ''b''] \<and>
   getSquadStatus Home exampleRoster []
       (cards (returnFromSinBin ''r1'' 6000 ''k1'' scenarioYellow)) 650
     = getSquadStatus Home exampleRoster [] [] 650"
proof -
  have h1: "(100::int) = elapsedSeconds (initialState\<lparr>elapsedSeconds := 100\<rparr>)"
    by (simp add: initialState_def)
  have h2: "(0::int) \<le> 100" by simp
  have h3: "scenarioYellow = addCard ''k1'' 5000 Home ''a'' Yellow (initialState\<lparr>elapsedSeconds := 100\<rparr>)"
    by (simp add: scenarioYellow_def)
  have e0: "cards (initialState\<lparr>elapsedSeconds := 100\<rparr>) = []"
    by (simp add: initialState_def)
  from sin_bin_boundary [OF h1 h2 h3, of exampleRoster "[]" "''r1''" 6000]
  obtain c where c: "cards scenarioYellow = [c]" "c_returnTime c = Some 700"
    and a: "\<forall>e. 100 \<le> e \<and> e < 700 \<longrightarrow>
         ''a'' \<notin> p_id ` set (onPitch (getSquadStatus Home exampleRoster [] (cards scenarioYellow) e))"
    and b: "\<forall>e. 700 \<le> e \<longrightarrow>
         getSquadStatus Home exampleRoster [] (cards scenarioYellow) e
           = getSquadStatus Home exampleRoster [] [] e"
    and r: "\<forall>e. getSquadStatus Home exampleRoster []
                 (cards (returnFromSinBin ''r1'' 6000 ''k1'' scenarioYellow)) e
           = getSquadStatus Home exampleRoster [] [] e"
    unfolding e0 by auto
  have "map p_id (onPitch (getSquadStatus Home exampleRoster [] [] 700)) = [''a'', ''b'']"
    by (simp add: getSquadStatus_def exampleRoster_def examplePlayer_def)
  with h1 h2 c a b r show ?thesis by simp
qed

section \<open>Score consistency (C1)\<close>

text \<open>
  C1, as the store implements it: in every state reached from the initial state by the
  store's operations, with event ids unique and \<open>resolvePendingEvent\<close> applied only to
  pending events or absent ids, \<open>homeScore\<close> is the sum of the points of the approved
  home score events and \<open>awayScore\<close> that of the approved away score events.
\<close>

theorem score_consistency:
  "reachable s \<Longrightarrow>
     homeScore s = teamPoints Home (scoreEvents s) \<and>
     awayScore s = teamPoints Away (scoreEvents s)"
  using reachable_scoreInv [of s] by (simp add: scoreInv_def)

theorem score_consistency_witness:
  "reachable scenarioApproved \<and>
   homeScore scenarioApproved = 5 \<and> awayScore scenarioApproved = 0 \<and>
   teamPoints Home (scoreEvents scenarioApproved) = 5 \<and>
   teamPoints Away (scoreEvents scenarioApproved) = 0"
proof -
  let ?s1 = "addScore ''p1'' 1000 Home Try None True initialState"
  have r1: "reachable ?s1"
    by (rule r_addScore [OF r_init]) (simp add: initialState_def)
  have pend: "\<forall>e \<in> set (scoreEvents ?s1). se_id e = ''p1'' \<longrightarrow> se_pending e"
    by (simp add: store_defs)
  have r2: "reachable scenarioApproved"
    unfolding scenarioApproved_def by (rule r_resolvePendingEvent [OF r1 pend])
  have h: "homeScore scenarioApproved = 5 \<and> awayScore scenarioApproved = 0"
    by (simp add: scenarioApproved_def resolvePendingEvent_def store_defs)
  from score_consistency [OF r2] r2 h show ?thesis by simp
qed

text \<open>
  C1 as stated fails: \<open>resolvePendingEvent\<close> does not look at the pending flag.
  Approving the approved home try of \<open>scenarioTry\<close> counts its 5 points a second time,
  and rejecting it removes the event while its points stay in \<open>homeScore\<close>.
\<close>

theorem score_consistency_counterexample:
  "homeScore (resolvePendingEvent ''e1'' True scenarioTry) = 10 \<and>
   teamPoints Home (scoreEvents (resolvePendingEvent ''e1'' True scenarioTry)) = 5 \<and>
   homeScore (resolvePendingEvent ''e1'' False scenarioTry) = 5 \<and>
   teamPoints Home (scoreEvents (resolvePendingEvent ''e1'' False scenarioTry)) = 0"
  by (simp add: resolvePendingEvent_def store_defs scenarioTry_def)

section \<open>Targeted removal (C5)\<close>

text \<open>
  C5: after \<open>removeScoreEvent\<close> the scores and \<open>lastTryTeam\<close> are to be those of the
  reducer run over the remaining ledger, with \<open>lastTryTeam\<close> null after a conversion. The
  loop of \<open>removeScoreEvent\<close> sets \<open>lastTryTeam\<close> to the team of a conversion instead:
  on the ledger of a home try and its conversion, removing an id that is not there, or
  removing a later away penalty, leaves the scores at 7 and 0 but turns \<open>lastTryTeam\<close>
  from null to home, where the reducer of the specification gives null.
\<close>

theorem removeScoreEvent_lastTryTeam_divergence:
  "lastTryTeam scenarioConverted = None \<and>
   scoreEvents (removeScoreEvent ''none'' scenarioConverted) = scoreEvents scenarioConverted \<and>
   scoreEvents (removeScoreEvent ''e3'' scenarioPenalty) = scoreEvents scenarioConverted \<and>
   spec_reduce (scoreEvents scenarioConverted) (0, 0, None) = (7, 0, None) \<and>
   homeScore (removeScoreEvent ''none'' scenarioConverted) = 7 \<and>
   awayScore (removeScoreEvent ''none'' scenarioConverted) = 0 \<and>
   lastTryTeam (removeScoreEvent ''none'' scenarioConverted) = Some Home \<and>
   homeScore (removeScoreEvent ''e3'' scenarioPenalty) = 7 \<and>
   awayScore (removeScoreEvent ''e3'' scenarioPenalty) = 0 \<and>
   lastTryTeam (removeScoreEvent ''e3'' scenarioPenalty) = Some Home"
  by (simp add: removeScoreEvent_def store_defs scenarioTry_def scenarioConverted_def scenarioPenalty_def)

section \<open>Quick undo (C6)\<close>

text \<open>
  C6: on a ledger whose three lists are each in order of creation, with timestamps after
  the epoch, \<open>undo\<close> removes exactly one record when there is one: a record whose
  timestamp is the greatest among score events, cards and substitutions together, and a
  substitution whenever a substitution has that greatest timestamp. When the three lists
  are empty, \<open>undo\<close> returns the state unchanged.
\<close>

theorem undo_removes_latest:
  assumes ch: "chrono s"
  shows "(ledger s = {#} \<longrightarrow> undo s = s) \<and>
         (ledger s \<noteq> {#} \<longrightarrow>
            (\<exists>r. ledger s = add_mset r (ledger (undo s)) \<and>
                 (\<forall>x \<in># ledger s. stamp x \<le> stamp r) \<and>
                 ((\<exists>x \<in># ledger s. isSub x \<and> stamp x = stamp r) \<longrightarrow> isSub r)))"
proof -
  let ?S = "scoreEvents s" and ?C = "cards s" and ?X = "substitutionEvents s"
  let ?c1 = "lastSubTime s \<ge> lastEventTime s \<and> lastSubTime s \<ge> lastCardTime s \<and> ?X \<noteq> []"
  let ?c2 = "lastEventTime s > lastCardTime s \<and> lastEventTime s > lastSubTime s \<and> ?S \<noteq> []"
  note pos = chrono_bounds(1-3)[OF ch]
  consider (sub) ?c1 | (score) "\<not> ?c1" ?c2 | (card) "\<not> ?c1" "\<not> ?c2" "?C \<noteq> []"
    | (none) "\<not> ?c1" "\<not> ?c2" "\<not> ?C \<noteq> []"
    by blast
  then show ?thesis
  proof cases
    case sub
    have u: "undo s = s\<lparr>substitutionEvents := butlast ?X\<rparr>"
      by (simp only: undo_branches sub if_True simp_thms)
    have l: "ledger s = add_mset (SubRec (last ?X)) (ledger (undo s))"
      using sub by (simp add: u ledger_def mset_snoc_last[of ?X SubRec])
    have e: "ledger s = {#} \<longrightarrow> undo s = s" using sub by (simp add: ledger_empty_iff)
    from latest_pick[OF ch l] sub stamps_last(3)[of s] e show ?thesis by simp
  next
    case score
    have u: "scoreEvents (undo s) = butlast ?S \<and> cards (undo s) = ?C \<and>
             substitutionEvents (undo s) = ?X"
      by (simp only: undo_branches score if_True if_False simp_thms) (simp add: addToScore_def)
    have l: "ledger s = add_mset (ScoreRec (last ?S)) (ledger (undo s))"
      using score u by (simp add: ledger_def mset_snoc_last[of ?S ScoreRec])
    have e: "ledger s = {#} \<longrightarrow> undo s = s" using score by (simp add: ledger_empty_iff)
    from latest_pick[OF ch l] score(2) stamps_last(1)[of s] e show ?thesis by simp
  next
    case card
    have u: "undo s = s\<lparr>cards := butlast ?C\<rparr>"
      by (simp only: undo_branches card if_True if_False simp_thms)
    have l: "ledger s = add_mset (CardRec (last ?C)) (ledger (undo s))"
      using card by (simp add: u ledger_def mset_snoc_last[of ?C CardRec])
    have ge: "lastEventTime s \<le> lastCardTime s \<and> lastSubTime s < lastCardTime s"
      using card pos stamps_empty(1,3)[of s] by (cases "?S = []"; cases "?X = []") auto
    have e: "ledger s = {#} \<longrightarrow> undo s = s" using card by (simp add: ledger_empty_iff)
    from latest_pick[OF ch l] ge card(3) stamps_last(2)[of s] e show ?thesis by simp
  next
    case none
    have "?S = [] \<and> ?X = []"
      using none pos stamps_empty[of s] by (cases "?S = []"; cases "?X = []") auto
    with none have e: "ledger s = {#}" by (simp add: ledger_empty_iff)
    have "undo s = s"
      by (simp only: undo_branches none if_True if_False simp_thms)
    with e show ?thesis by simp
  qed
qed

theorem undo_removes_latest_witness:
  "chrono exampleTie \<and> ledger exampleTie \<noteq> {#} \<and>
   (\<exists>r. ledger exampleTie = add_mset r (ledger (undo exampleTie)) \<and>
        (\<forall>x \<in># ledger exampleTie. stamp x \<le> stamp r)) \<and>
   substitutionEvents (undo exampleTie) = [] \<and>
   map se_id (scoreEvents (undo exampleTie)) = [''e1''] \<and>
   map c_id (cards (undo exampleTie)) = [''k1'']"
proof -
  have ch: "chrono exampleTie"
    by (simp add: exampleTie_def addSubstitution_def addScore_def addCard_def addToScore_def
      initialState_def Let_def chrono_def)
  have ne: "ledger exampleTie \<noteq> {#}"
    by (simp add: exampleTie_def addSubstitution_def addScore_def addCard_def addToScore_def
      initialState_def Let_def ledger_def)
  have ev: "substitutionEvents (undo exampleTie) = [] \<and>
   map se_id (scoreEvents (undo exampleTie)) = [''e1''] \<and>
   map c_id (cards (undo exampleTie)) = [''k1'']"
    by (simp add: undo_def lastElem_def exampleTie_def addSubstitution_def addScore_def addCard_def addToScore_def
      initialState_def Let_def)
  from undo_removes_latest [OF ch] ne ch ev show ?thesis by blast
qed

section \<open>The persisted log (C8)\<close>

text \<open>
  C8, as the code implements it: the persisted log holds exactly one entry for every
  score event, card, substitution and system event of the state, and none for card-return
  events; it is in ascending order of timestamp. A score entry carries id, timestamp, team,
  score kind, points, player, pending flag, half and match time; a card entry id, timestamp,
  team, card kind, player, returned flag, return time, half and match time; a substitution
  entry id, timestamp, team, the players going off and on, half and match time; a system
  entry id, timestamp, its kind, half and match time. The snapshot stores the two scores of
  the state; the points of the approved score entries of the log add up, per team, to the
  points of the approved score events, and so, in every reachable state, to \<open>homeScore\<close>
  and \<open>awayScore\<close>; and when the substitutions of the state are in order of creation,
  the squad status computed from the substitutions and cards read back from the log is, for
  every team, roster and elapsed time, the squad status of the state.
\<close>

theorem persisted_log_contents:
  fixes s :: MatchState
  defines "lg \<equiv> buildLogFromSnapshot (stateToMatchSnapshot s)"
  shows "mset lg =
           image_mset (\<lambda>e. \<lparr> le_id = se_id e, le_timestamp = se_timestamp e, le_type = LScore,
                le_team = Some (se_team e), le_scoreType = Some (se_type e),
                le_points = Some (se_points e), le_playerId = se_player e,
                le_pending = Some (se_pending e), le_cardType = None, le_returned = None,
                le_returnTime = None, le_offPlayerId = None, le_onPlayerId = None,
                le_half = Some (se_half e), le_matchTime = Some (se_matchTime e) \<rparr>)
             (mset (scoreEvents s)) +
           image_mset (\<lambda>c. \<lparr> le_id = c_id c, le_timestamp = c_timestamp c, le_type = LCard,
                le_team = Some (c_team c), le_scoreType = None, le_points = None,
                le_playerId = Some (c_player c), le_pending = None,
                le_cardType = Some (c_type c), le_returned = Some (c_returned c),
                le_returnTime = c_returnTime c, le_offPlayerId = None, le_onPlayerId = None,
                le_half = Some (c_half c), le_matchTime = Some (c_matchTime c) \<rparr>)
             (mset (cards s)) +
           image_mset (\<lambda>x. \<lparr> le_id = sub_id x, le_timestamp = sub_timestamp x,
                le_type = LSubstitution, le_team = Some (sub_team x), le_scoreType = None,
                le_points = None, le_playerId = None, le_pending = None, le_cardType = None,
                le_returned = None, le_returnTime = None,
                le_offPlayerId = Some (sub_offPlayerId x),
                le_onPlayerId = Some (sub_onPlayerId x),
                le_half = Some (sub_half x), le_matchTime = Some (sub_matchTime x) \<rparr>)
             (mset (substitutionEvents s)) +
           image_mset (\<lambda>y. \<lparr> le_id = sys_id y, le_timestamp = sys_timestamp y,
                le_type = (case sys_type y of MatchStart \<Rightarrow> LMatchStart
                           | HalfTime \<Rightarrow> LHalfTime | MatchEnd \<Rightarrow> LMatchEnd),
                le_team = None, le_scoreType = None, le_points = None, le_playerId = None,
                le_pending = None, le_cardType = None, le_returned = None,
                le_returnTime = None, le_offPlayerId = None, le_onPlayerId = None,
                le_half = Some (sys_half y), le_matchTime = Some (sys_matchTime y) \<rparr>)
             (mset (systemEvents s)) \<and>
         sorted (map le_timestamp lg) \<and>
         snap_homeScore (stateToMatchSnapshot s) = homeScore s \<and>
         snap_awayScore (stateToMatchSnapshot s) = awayScore s \<and>
         logTeamPoints Home lg = teamPoints Home (scoreEvents s) \<and>
         logTeamPoints Away lg = teamPoints Away (scoreEvents s) \<and>
         (reachable s \<longrightarrow>
            logTeamPoints Home lg = homeScore s \<and> logTeamPoints Away lg = awayScore s) \<and>
         (sorted (map sub_timestamp (substitutionEvents s)) \<longrightarrow>
            (\<forall>tm pls e. getSquadStatus tm pls (logSubstitutions lg) (logCards lg) e
                = getSquadStatus tm pls (substitutionEvents s) (cards s) e))"
proof -
  have sys: "systemLogType t = (case t of MatchStart \<Rightarrow> LMatchStart
                           | HalfTime \<Rightarrow> LHalfTime | MatchEnd \<Rightarrow> LMatchEnd)" for t
    by (cases t) simp_all
  have 1: "mset lg = image_mset scoreLogEvent (mset (scoreEvents s)) +
                   image_mset cardLogEvent (mset (cards s)) +
                   image_mset substitutionLogEvent (mset (substitutionEvents s)) +
                   image_mset systemLogEvent (mset (systemEvents s))"
    by (simp add: lg_def buildLogFromSnapshot_def stateToMatchSnapshot_def)
  have enc: "scoreLogEvent = (\<lambda>e. \<lparr> le_id = se_id e, le_timestamp = se_timestamp e, le_type = LScore,
                le_team = Some (se_team e), le_scoreType = Some (se_type e),
                le_points = Some (se_points e), le_playerId = se_player e,
                le_pending = Some (se_pending e), le_cardType = None, le_returned = None,
                le_returnTime = None, le_offPlayerId = None, le_onPlayerId = None,
                le_half = Some (se_half e), le_matchTime = Some (se_matchTime e) \<rparr>)"
    "cardLogEvent = (\<lambda>c. \<lparr> le_id = c_id c, le_timestamp = c_timestamp c, le_type = LCard,
                le_team = Some (c_team c), le_scoreType = None, le_points = None,
                le_playerId = Some (c_player c), le_pending = None,
                le_cardType = Some (c_type c), le_returned = Some (c_returned c),
                le_returnTime = c_returnTime c, le_offPlayerId = None, le_onPlayerId = None,
                le_half = Some (c_half c), le_matchTime = Some (c_matchTime c) \<rparr>)"
    "substitutionLogEvent = (\<lambda>x. \<lparr> le_id = sub_id x, le_timestamp = sub_timestamp x,
                le_type = LSubstitution, le_team = Some (sub_team x), le_scoreType = None,
                le_points = None, le_playerId = None, le_pending = None, le_cardType = None,
                le_returned = None, le_returnTime = None,
                le_offPlayerId = Some (sub_offPlayerId x),
                le_onPlayerId = Some (sub_onPlayerId x),
                le_half = Some (sub_half x), le_matchTime = Some (sub_matchTime x) \<rparr>)"
    "systemLogEvent = (\<lambda>y. \<lparr> le_id = sys_id y, le_timestamp = sys_timestamp y,
                le_type = (case sys_type y of MatchStart \<Rightarrow> LMatchStart
                           | HalfTime \<Rightarrow> LHalfTime | MatchEnd \<Rightarrow> LMatchEnd),
                le_team = None, le_scoreType = None, le_points = None, le_playerId = None,
                le_pending = None, le_cardType = None, le_returned = None,
                le_returnTime = None, le_offPlayerId = None, le_onPlayerId = None,
                le_half = Some (sys_half y), le_matchTime = Some (sys_matchTime y) \<rparr>)"
    by (simp_all add: fun_eq_iff entry_defs sys)
  have 2: "sorted (map le_timestamp lg)"
    by (simp add: lg_def buildLogFromSnapshot_def)
  have 3: "snap_homeScore (stateToMatchSnapshot s) = homeScore s \<and>
         snap_awayScore (stateToMatchSnapshot s) = awayScore s"
    by (simp add: stateToMatchSnapshot_def)
  have 4: "logTeamPoints tm lg = teamPoints tm (scoreEvents s)" for tm
    by (simp add: lg_def buildLogFromSnapshot_def stateToMatchSnapshot_def logTeamPoints_sort
        logTeamPoints_score logTeamPoints_card logTeamPoints_substitution
        logTeamPoints_system)
  have 5: "getSquadStatus tm pls (logSubstitutions lg) (logCards lg) e
                = getSquadStatus tm pls (substitutionEvents s) (cards s) e"
    if "sorted (map sub_timestamp (substitutionEvents s))" for tm pls e
    unfolding lg_def logSubstitutions_sorted[OF that] squad_subs_minute
    using squad_cards_set[OF logCards_set] squad_cards_minute by simp
  have 6: "logTeamPoints Home lg = homeScore s \<and> logTeamPoints Away lg = awayScore s"
    if "reachable s"
    using reachable_scoreInv[OF that] 4 by (simp add: scoreInv_def)
  from 1[unfolded enc] 2 3 4 5 6 show ?thesis by blast
qed

theorem persisted_log_contents_witness:
  "reachable exampleTie \<and>
   sorted (map sub_timestamp (substitutionEvents exampleTie)) \<and>
   map le_id (buildLogFromSnapshot (stateToMatchSnapshot exampleTie)) = [''k1'', ''e1'', ''x1''] \<and>
   getSquadStatus Home exampleRoster
       (logSubstitutions (buildLogFromSnapshot (stateToMatchSnapshot exampleTie)))
       (logCards (buildLogFromSnapshot (stateToMatchSnapshot exampleTie))) 0
     = getSquadStatus Home exampleRoster (substitutionEvents exampleTie) (cards exampleTie) 0 \<and>
   homeScore exampleTie = 5 \<and>
   logTeamPoints Home (buildLogFromSnapshot (stateToMatchSnapshot exampleTie)) = 5 \<and>
   logTeamPoints Away (buildLogFromSnapshot (stateToMatchSnapshot exampleTie))
     = awayScore exampleTie"
proof -
  have srt: "sorted (map sub_timestamp (substitutionEvents exampleTie))"
    by (simp add: exampleTie_lists)
  have ids: "map le_id (buildLogFromSnapshot (stateToMatchSnapshot exampleTie))
      = [''k1'', ''e1'', ''x1'']"
    by (simp add: exampleTie_def addSubstitution_def store_defs buildLogFromSnapshot_def
        stateToMatchSnapshot_def entry_defs)
  have h: "homeScore exampleTie = 5"
    by (simp add: exampleTie_def addSubstitution_def store_defs)
  from persisted_log_contents [of exampleTie] reachable_exampleTie srt ids h
  show ?thesis by simp
qed

text \<open>
  C8 as stated fails: after a sin-bin return the state holds a card-return event, and the
  log built from the state has the card's entry only.
\<close>

theorem log_drops_card_returns:
  "map cr_id (cardReturnEvents scenarioReturned) = [''r1''] \<and>
   map c_id (cards scenarioReturned) = [''k1''] \<and>
   map le_id (buildLogFromSnapshot (stateToMatchSnapshot scenarioReturned)) = [''k1'']"
  by (simp add: scenarioReturned_def returnFromSinBin_def store_defs scenarioYellow_def buildLogFromSnapshot_def
      stateToMatchSnapshot_def entry_defs)

end
